theory Spec2Isabelle
  imports Complex_Main "HOL-Library.Multiset"
begin

section \<open>Python values shared by the modules\<close>

text \<open>
  Exceptions are values. \<open>TypeError\<close> carries the list index that the message of
  \<open>Evaluation.__init__\<close> reports; the other classes carry nothing, their messages are
  dropped. \<open>AxisError\<close> is numpy's error for an axis an array does not have,
  \<open>OverflowError\<close> Python's for an integer that does not fit a machine integer, and
  \<open>MemoryError\<close> the failure of an allocation.
\<close>

datatype error =
    TypeError nat
  | ValueError
  | IndexError
  | AttributeError
  | AxisError
  | OverflowError
  | MemoryError

text \<open>
  A list comprehension \<open>[f(x) for x in xs]\<close> whose body may raise: the elements are
  computed left to right and the first exception ends the comprehension.
\<close>

fun list_comp :: "('a \<Rightarrow> error + 'b) \<Rightarrow> 'a list \<Rightarrow> error + 'b list" where
  "list_comp f [] = Inr []"
| "list_comp f (x # xs) =
     (case f x of
        Inl e \<Rightarrow> Inl e
      | Inr y \<Rightarrow> (case list_comp f xs of Inl e \<Rightarrow> Inl e | Inr ys \<Rightarrow> Inr (y # ys)))"

text \<open>Sequencing of two fallible steps: the second runs on the first one's result.\<close>

definition and_then :: "error + 'a \<Rightarrow> ('a \<Rightarrow> error + 'b) \<Rightarrow> error + 'b" where
  "and_then r f = (case r of Inl e \<Rightarrow> Inl e | Inr x \<Rightarrow> f x)"

text \<open>
  A numpy float is a real number or \<open>nan\<close>. Rounding is not modelled: arithmetic is
  the arithmetic of the reals.
\<close>

datatype npfloat = Fin real | NaN

text \<open>
  \<open>np.mean\<close> and \<open>np.std\<close> of a list of floats: the sum of the elements divided by their
  number, and the square root of the mean squared distance to the mean. Both return
  \<open>nan\<close> (with a warning, not an exception) on an empty list.
\<close>

definition np_mean :: "real list \<Rightarrow> npfloat" where
  "np_mean xs = (if xs = [] then NaN else Fin (foldl (+) 0 xs / real (length xs)))"

definition np_std :: "real list \<Rightarrow> npfloat" where
  "np_std xs =
     (if xs = [] then NaN
      else let m = foldl (+) 0 xs / real (length xs)
           in Fin (sqrt (foldl (+) 0 (map (\<lambda>x. (abs (x - m))\<^sup>2) xs) / real (length xs))))"

text \<open>
  An n-dimensional array: its shape and its elements in row-major order.
  \<open>size_of\<close> is numpy's \<open>size\<close>, the product of the dimensions.
\<close>

record 'a ndarray =
  shape :: "nat list"
  data :: "'a list"

definition size_of :: "'a ndarray \<Rightarrow> nat" where
  "size_of a = prod_list (shape a)"

text \<open>Element \<open>(i, j)\<close> of a two-dimensional array.\<close>

definition item2 :: "'a ndarray \<Rightarrow> nat \<Rightarrow> nat \<Rightarrow> 'a" where
  "item2 a i j = data a ! (i * (shape a ! 1) + j)"

text \<open>
  \<open>np.array\<close> of a list of lists of floats. The empty outer list gives the
  one-dimensional array of shape \<open>(0,)\<close>; rows of one common length \<open>k\<close> give shape
  \<open>(len(rows), k)\<close>; rows of different lengths are refused.
\<close>

definition np_array :: "'a list list \<Rightarrow> error + 'a ndarray" where
  "np_array rs =
     (case rs of
        [] \<Rightarrow> Inr \<lparr>shape = [0], data = []\<rparr>
      | r # _ \<Rightarrow>
          if list_all (\<lambda>r'. length r' = length r) rs
          then Inr \<lparr>shape = [length rs, length r], data = concat rs\<rparr>
          else Inl ValueError)"


section \<open>evaluation/evaluation.py\<close>

text \<open>
  The objects a caller can put in the list given to \<open>Evaluation\<close>: instances of
  \<open>Results\<close> (the class itself is declared in another module; \<open>'r\<close> is what an instance
  holds) and everything else.
\<close>

datatype ('r, 'o) pyobj = Results 'r | Other 'o

fun isinstance_Results :: "('r, 'o) pyobj \<Rightarrow> bool" where
  "isinstance_Results (Results _) = True"
| "isinstance_Results (Other _) = False"

text \<open>
  An \<open>Evaluation\<close> instance holds the attribute \<open>results\<close>. The class only annotates
  \<open>alphas\<close> and \<open>alpha_map\<close> and assigns neither, so what \<open>self.alphas\<close> finds is an
  argument of the method that reads it: \<open>None\<close> when nothing was ever assigned.
\<close>

record 'x Evaluation =
  results :: "'x list"

text \<open>The loop of \<open>__init__\<close> over \<open>enumerate(results)\<close>, from index \<open>i\<close> on.\<close>

fun check_results :: "nat \<Rightarrow> ('r, 'o) pyobj list \<Rightarrow> error option" where
  "check_results i [] = None"
| "check_results i (result # rest) =
     (if \<not> isinstance_Results result then Some (TypeError i)
      else check_results (Suc i) rest)"

definition Evaluation_init :: "('r, 'o) pyobj list \<Rightarrow> error + ('r, 'o) pyobj Evaluation" where
  "Evaluation_init rs =
     (case check_results 0 rs of
        Some e \<Rightarrow> Inl e
      | None \<Rightarrow> Inr \<lparr>results = rs\<rparr>)"

text \<open>
  \<open>compute_bedroc_scores\<close>. \<open>bedroc_score\<close> is imported from the metrics module; the
  call \<open>bedroc_score(*result_per_fold, decreasing=True, alpha=alpha)\<close> is the parameter
  \<open>bedroc_call result_per_fold True alpha\<close>, which may raise. \<open>self.alphas\<close> is read
  inside the outer comprehension, once per fold.
\<close>

definition compute_bedroc_scores ::
  "('x \<Rightarrow> bool \<Rightarrow> real \<Rightarrow> error + real) \<Rightarrow> real list option \<Rightarrow> 'x Evaluation
     \<Rightarrow> error + real ndarray" where
  "compute_bedroc_scores bedroc_call alphas self =
     and_then
       (list_comp
          (\<lambda>result_per_fold.
             case alphas of
               None \<Rightarrow> Inl AttributeError
             | Some as \<Rightarrow> list_comp (\<lambda>alpha. bedroc_call result_per_fold True alpha) as)
          (results self))
       np_array"

text \<open>
  \<open>compute_avg_auc_loss\<close>. \<open>metrics.roc_auc_score(*result_per_fold)\<close> is sklearn's; the
  call is the parameter \<open>roc_auc_score result_per_fold\<close>, which may raise.
\<close>

definition compute_avg_auc_loss ::
  "('x \<Rightarrow> error + real) \<Rightarrow> 'x Evaluation \<Rightarrow> error + (npfloat \<times> npfloat)" where
  "compute_avg_auc_loss roc_auc_score self =
     and_then
       (list_comp
          (\<lambda>result_per_fold.
             and_then (roc_auc_score result_per_fold) (\<lambda>auc. Inr (1 - auc)))
          (results self))
       (\<lambda>auc_loss. Inr (np_mean auc_loss, np_std auc_loss))"


section \<open>postprocessing/dataframes.py\<close>

text \<open>
  A pandas \<open>DataFrame\<close>: the row labels, the column labels and one list of cells per
  column. \<open>len(df)\<close> is the number of row labels, \<open>df.shape[1]\<close> the number of column
  labels, and \<open>cell df i j\<close> is \<open>df.iloc[i, j]\<close>.
\<close>

record ('i, 'a) DataFrame =
  index :: "'i list"
  columns :: "string list"
  col_data :: "'a list list"

definition cell :: "('i, 'a) DataFrame \<Rightarrow> nat \<Rightarrow> nat \<Rightarrow> 'a" where
  "cell df i j = col_data df ! j ! i"

text \<open>
  \<open>pd.DataFrame(arr, columns=..., index=...)\<close> on an array: a two-dimensional array
  gives one column per array column, a one-dimensional array is a single column, any
  other rank is refused, and so are labels whose number does not match the shape.
\<close>

definition pd_DataFrame ::
  "'a ndarray \<Rightarrow> string list \<Rightarrow> 'i list \<Rightarrow> error + ('i, 'a) DataFrame" where
  "pd_DataFrame arr cols idx =
     (case shape arr of
        [m, n] \<Rightarrow>
          if length idx \<noteq> m \<or> length cols \<noteq> n then Inl ValueError
          else Inr \<lparr>index = idx, columns = cols,
                    col_data = map (\<lambda>j. map (\<lambda>i. data arr ! (i * n + j)) [0..<m]) [0..<n]\<rparr>
      | [m] \<Rightarrow>
          if length idx \<noteq> m \<or> length cols \<noteq> 1 then Inl ValueError
          else Inr \<lparr>index = idx, columns = cols, col_data = [data arr]\<rparr>
      | _ \<Rightarrow> Inl ValueError)"

text \<open>\<open>DataFrame.map(f)\<close>: a new frame with \<open>f\<close> applied to every cell.\<close>

definition DataFrame_map :: "('a \<Rightarrow> 'b) \<Rightarrow> ('i, 'a) DataFrame \<Rightarrow> ('i, 'b) DataFrame" where
  "DataFrame_map f df =
     \<lparr>index = index df, columns = columns df, col_data = map (map f) (col_data df)\<rparr>"

text \<open>
  A reduction along axis 1 (\<open>a.mean(axis=1)\<close>, \<open>a.std(axis=1)\<close>): an array of shape
  \<open>(d0, d1, ...rest)\<close> becomes one of shape \<open>(d0, ...rest)\<close>, each element the
  reduction \<open>f\<close> of the \<open>d1\<close> elements that differ in the second index only. An array
  with fewer than two axes has no axis 1.
\<close>

definition reduce_axis1 :: "('a list \<Rightarrow> 'b) \<Rightarrow> 'a ndarray \<Rightarrow> error + 'b ndarray" where
  "reduce_axis1 f a =
     (case shape a of
        d0 # d1 # rest \<Rightarrow>
          (let s = prod_list rest in
           Inr \<lparr>shape = d0 # rest,
                data = map (\<lambda>k. f (map (\<lambda>d. data a ! (((k div s) * d1 + d) * s + k mod s)) [0..<d1]))
                         [0..<d0 * s]\<rparr>)
      | _ \<Rightarrow> Inl AxisError)"

text \<open>
  \<open>np.hstack((x, y))\<close>: zero-dimensional arrays are first made one-dimensional;
  one-dimensional arrays are joined end to end, arrays of higher rank along axis 1,
  which needs every other dimension to agree.
\<close>

definition atleast_1d :: "'a ndarray \<Rightarrow> 'a ndarray" where
  "atleast_1d a = (if shape a = [] then a\<lparr>shape := [1]\<rparr> else a)"

definition np_hstack :: "'a ndarray \<Rightarrow> 'a ndarray \<Rightarrow> error + 'a ndarray" where
  "np_hstack x0 y0 =
     (let x = atleast_1d x0; y = atleast_1d y0 in
      case shape x of
        [n] \<Rightarrow>
          (case shape y of
             [n'] \<Rightarrow> Inr \<lparr>shape = [n + n'], data = data x @ data y\<rparr>
           | _ \<Rightarrow> Inl ValueError)
      | d0 # d1 # rest \<Rightarrow>
          (case shape y of
             e0 # e1 # rest' \<Rightarrow>
               if d0 = e0 \<and> rest = rest'
               then (let s = prod_list rest in
                     Inr \<lparr>shape = d0 # (d1 + e1) # rest,
                          data = concat (map (\<lambda>i. take (d1 * s) (drop (i * d1 * s) (data x))
                                                  @ take (e1 * s) (drop (i * e1 * s) (data y)))
                                             [0..<d0])\<rparr>)
               else Inl ValueError
           | _ \<Rightarrow> Inl ValueError)
      | _ \<Rightarrow> Inl ValueError)"

text \<open>
  \<open>a.reshape((-1, k))\<close>: the same elements in rows of \<open>k\<close>; refused when the size of
  the array is not a multiple of \<open>k\<close>, or when \<open>k\<close> is zero.
\<close>

definition reshape_rows :: "'a ndarray \<Rightarrow> nat \<Rightarrow> error + 'a ndarray" where
  "reshape_rows a k =
     (if k = 0 \<or> size_of a mod k \<noteq> 0 then Inl ValueError
      else Inr \<lparr>shape = [size_of a div k, k], data = data a\<rparr>)"

text \<open>
  \<open>generate_auc_loss_table\<close>. The parameter \<open>fmt\<close> is the formatter
  \<open>lambda x: f"{x:.2e}"\<close>; the two column names are arguments, with the defaults of the
  source.
\<close>

definition avg_auc_loss_name_default :: string where
  "avg_auc_loss_name_default = ''Averaged 1-AUC error''"

definition std_auc_loss_name_default :: string where
  "std_auc_loss_name_default = ''Std 1-AUC error''"

definition generate_auc_loss_table ::
  "('a \<Rightarrow> string) \<Rightarrow> 'a ndarray \<Rightarrow> string list \<Rightarrow> string \<Rightarrow> string
     \<Rightarrow> error + (string, string) DataFrame" where
  "generate_auc_loss_table fmt auc_loss model_names avg_auc_loss_name std_auc_loss_name =
     and_then (pd_DataFrame auc_loss [avg_auc_loss_name, std_auc_loss_name] model_names)
       (\<lambda>dataframe. Inr (DataFrame_map fmt dataframe))"

text \<open>
  \<open>generate_bedroc_table\<close>. \<open>alpha_map\<close> is a dictionary from alpha values to labels,
  kept as the list of its items in insertion order. The column names are the pairs
  (average name, deviation name) of every label, flattened.
\<close>

definition avg_bedroc_score_name_default :: string where
  "avg_bedroc_score_name_default = ''Averaged BEDROC score''"

definition std_bedroc_score_name_default :: string where
  "std_bedroc_score_name_default = ''Std BEDROC score''"

definition column_names_of :: "string \<Rightarrow> string \<Rightarrow> (real \<times> string) list \<Rightarrow> string list" where
  "column_names_of avg_bedroc_score_name std_bedroc_score_name alpha_map =
     concat (map (\<lambda>alpha. [avg_bedroc_score_name @ '' (top '' @ alpha @ '')'',
                            std_bedroc_score_name @ '' (top '' @ alpha @ '')''])
                 (map snd alpha_map))"

definition generate_bedroc_table ::
  "(npfloat \<Rightarrow> string) \<Rightarrow> real ndarray \<Rightarrow> string list \<Rightarrow> (real \<times> string) list
     \<Rightarrow> string \<Rightarrow> string \<Rightarrow> error + (string, string) DataFrame" where
  "generate_bedroc_table fmt bedroc model_names alpha_map
       avg_bedroc_score_name std_bedroc_score_name =
     (case shape bedroc of
        [] \<Rightarrow> Inl IndexError
      | d0 # _ \<Rightarrow>
          if length alpha_map \<noteq> d0 then Inl ValueError
          else
            and_then (reduce_axis1 np_mean bedroc) (\<lambda>m.
            and_then (reduce_axis1 np_std bedroc) (\<lambda>s.
            and_then (np_hstack m s) (\<lambda>h.
            and_then (reshape_rows h (length alpha_map * 2)) (\<lambda>bedroc'.
            and_then (pd_DataFrame bedroc'
                        (column_names_of avg_bedroc_score_name std_bedroc_score_name alpha_map)
                        model_names) (\<lambda>dataframe.
            Inr (DataFrame_map fmt dataframe)))))))"


section \<open>preprocessing/side_information_loader.py\<close>

text \<open>
  The cells of a numeric frame. A column read from a file holds 64-bit integers
  (\<open>I k\<close>, with \<open>k\<close> between \<open>-2^63\<close> and \<open>2^63 - 1\<close>) or 64-bit floats (\<open>F x\<close>, the
  float whose value is \<open>x\<close>). Arithmetic on floats is the arithmetic of the reals; what
  is modelled of the float format is the loss of integers beyond 53 bits.
\<close>

datatype num = I int | F real

fun num_val :: "num \<Rightarrow> real" where
  "num_val (I k) = of_int k"
| "num_val (F x) = x"

fun is_int64 :: "num \<Rightarrow> bool" where
  "is_int64 (I k) = True"
| "is_int64 (F x) = False"

fun in_int64 :: "num \<Rightarrow> bool" where
  "in_int64 (I k) \<longleftrightarrow> - (2 ^ 63) \<le> k \<and> k < 2 ^ 63"
| "in_int64 (F x) \<longleftrightarrow> True"

text \<open>
  The conversion of a 64-bit integer to a float. A float has 53 significant bits: an
  integer of magnitude \<open>m\<close> is rounded to the nearest multiple of \<open>ulp53 m\<close>, the power
  of two that leaves 53 bits, and a tie goes to the even multiple.
\<close>

function ulp53 :: "nat \<Rightarrow> nat" where
  "ulp53 m = (if m < 2 ^ 53 then 1 else 2 * ulp53 (m div 2))"
  by pat_completeness auto
termination
  by (relation "measure id") auto

declare ulp53.simps [simp del]

definition round_half_even :: "int \<Rightarrow> int \<Rightarrow> int" where
  "round_half_even u k =
     (let q = k div u; r = k mod u in
      if 2 * r < u then q * u
      else if u < 2 * r then (q + 1) * u
      else if even q then q * u else (q + 1) * u)"

definition int64_to_float64 :: "int \<Rightarrow> real" where
  "int64_to_float64 k = of_int (round_half_even (int (ulp53 (nat \<bar>k\<bar>))) k)"

fun astype_float64 :: "num \<Rightarrow> num" where
  "astype_float64 (I k) = F (int64_to_float64 k)"
| "astype_float64 (F x) = F x"

text \<open>
  \<open>int(x)\<close> on an array element, and the cast of an array to an index type: an integer
  is kept, a float is truncated toward zero.
\<close>

definition trunc :: "real \<Rightarrow> int" where
  "trunc x = (if 0 \<le> x then \<lfloor>x\<rfloor> else \<lceil>x\<rceil>)"

fun py_int :: "num \<Rightarrow> int" where
  "py_int (I k) = k"
| "py_int (F x) = trunc x"

text \<open>
  \<open>dataframe.to_numpy()\<close>: the two-dimensional array of the cells, one array row per
  frame row. An array has one element type: when every column holds integers the
  cells are kept, otherwise every cell is converted to a float.
\<close>

definition upcast :: "('i, num) DataFrame \<Rightarrow> num \<Rightarrow> num" where
  "upcast df = (if list_all (list_all is_int64) (col_data df) then (\<lambda>c. c) else astype_float64)"

definition to_numpy :: "('i, num) DataFrame \<Rightarrow> num ndarray" where
  "to_numpy df =
     \<lparr>shape = [length (index df), length (columns df)],
      data = concat (map (\<lambda>i. map (\<lambda>c. upcast df (c ! i)) (col_data df))
                         [0..<length (index df)])\<rparr>"

text \<open>
  \<open>mat[:, j]\<close>: the elements whose second index is \<open>j\<close>. An array of shape
  \<open>(m, n, ...rest)\<close> gives one of shape \<open>(m, ...rest)\<close>; \<open>j \<ge> n\<close> or a missing second
  axis is an \<open>IndexError\<close>.
\<close>

definition column_slice :: "'a ndarray \<Rightarrow> nat \<Rightarrow> error + 'a ndarray" where
  "column_slice mat j =
     (case shape mat of
        m # n # rest \<Rightarrow>
          if j < n
          then (let s = prod_list rest in
                Inr \<lparr>shape = m # rest,
                     data = concat (map (\<lambda>i. take s (drop ((i * n + j) * s) (data mat))) [0..<m])\<rparr>)
          else Inl IndexError
      | _ \<Rightarrow> Inl IndexError)"

text \<open>\<open>a.max()\<close>: the largest element; an array without elements is refused.\<close>

definition num_max :: "num \<Rightarrow> num \<Rightarrow> num" where
  "num_max a b = (if num_val a < num_val b then b else a)"

definition np_max :: "num ndarray \<Rightarrow> error + num" where
  "np_max a = (case data a of [] \<Rightarrow> Inl ValueError | x # xs \<Rightarrow> Inr (fold num_max xs x))"

text \<open>
  A scipy matrix in coordinate format: the shape and three parallel lists, the row
  index, the column index and the stored number of every entry. Duplicate coordinates
  and stored zeros are kept; \<open>nnz\<close> counts the stored entries, and \<open>coo_entries\<close> lists
  them as (row, column, number).
\<close>

record coo_matrix =
  coo_shape :: "int \<times> int"
  coo_row :: "int list"
  coo_col :: "int list"
  coo_data :: "num list"

definition nnz :: "coo_matrix \<Rightarrow> nat" where
  "nnz m = length (coo_data m)"

definition coo_entries :: "coo_matrix \<Rightarrow> (int \<times> int \<times> real) list" where
  "coo_entries m = zip (coo_row m) (zip (coo_col m) (map num_val (coo_data m)))"

text \<open>
  The constructor \<open>sp.coo_matrix((obj, (row, col)), shape=(M, N))\<close>. A negative
  dimension is a \<open>ValueError\<close>. The index type is then chosen for the larger dimension,
  which must fit 64 bits: a dimension of \<open>2^63\<close> or more is an \<open>OverflowError\<close>. The
  three arrays must be one-dimensional and of one length; the index arrays are cast
  to integers; and when there are entries, every row index must lie in \<open>0..M-1\<close> and
  every column index in \<open>0..N-1\<close>; each violation is a \<open>ValueError\<close>. (Within these
  bounds the cast is the truncation; a float outside the 64-bit range is refused as an
  index out of bounds either way.)
\<close>

definition sp_coo_matrix ::
  "num ndarray \<Rightarrow> num ndarray \<times> num ndarray \<Rightarrow> int \<times> int \<Rightarrow> error + coo_matrix" where
  "sp_coo_matrix obj coords shp =
     (case coords of (r, c) \<Rightarrow>
      case shp of (M, N) \<Rightarrow>
        if M < 0 \<or> N < 0 then Inl ValueError
        else if 2 ^ 63 \<le> max M N then Inl OverflowError
        else if length (shape r) \<noteq> 1 \<or> length (shape c) \<noteq> 1 \<or> length (shape obj) \<noteq> 1
          then Inl ValueError
        else
          (let rw = map py_int (data r); cl = map py_int (data c) in
           if length rw \<noteq> length (data obj) \<or> length cl \<noteq> length (data obj)
             then Inl ValueError
           else if data obj \<noteq> []
                 \<and> (list_ex (\<lambda>i. M \<le> i) rw \<or> list_ex (\<lambda>j. N \<le> j) cl
                      \<or> list_ex (\<lambda>i. i < 0) rw \<or> list_ex (\<lambda>j. j < 0) cl)
             then Inl ValueError
           else Inr \<lparr>coo_shape = (M, N), coo_row = rw, coo_col = cl, coo_data = data obj\<rparr>))"

text \<open>
  \<open>to_coo\<close>. The arguments of the constructor are evaluated left to right: the three
  slices first, then the shape with the maximum of the second column.
\<close>

definition to_coo :: "('i, num) DataFrame \<Rightarrow> int \<Rightarrow> error + coo_matrix" where
  "to_coo dataframe rows =
     (let mat = to_numpy dataframe in
      and_then (column_slice mat 2) (\<lambda>d.
      and_then (column_slice mat 0) (\<lambda>r.
      and_then (column_slice mat 1) (\<lambda>c.
      and_then (column_slice mat 1) (\<lambda>c'.
      and_then (np_max c') (\<lambda>mx.
      sp_coo_matrix d (r, c) (rows + 1, py_int mx + 1)))))))"

text \<open>
  A matrix in compressed-row format, kept as its shape and its entries in row-major
  order, one per coordinate. \<open>tocsr\<close> adds up the entries of a coordinate matrix that
  share a coordinate: integers in 64-bit arithmetic, which wraps around, floats as
  reals.

  Unlike the coordinate format, the compressed-row format holds one row pointer per
  row and one more, so \<open>tocsr\<close> allocates an array whose length is set by the shape and
  not by the data. numpy refuses an array of \<open>2^60\<close> or more 8-byte elements with a
  \<open>ValueError\<close>; below that the allocation fails with a \<open>MemoryError\<close> when the machine
  cannot provide it. The largest array the machine can allocate is the parameter
  \<open>max_alloc\<close> of the model.
\<close>

record csr_matrix =
  csr_shape :: "int \<times> int"
  csr_entries :: "((int \<times> int) \<times> num) list"

definition wrap64 :: "int \<Rightarrow> int" where
  "wrap64 k = (k + 2 ^ 63) mod 2 ^ 64 - 2 ^ 63"

definition num_sum :: "num list \<Rightarrow> num" where
  "num_sum xs =
     (if list_all is_int64 xs then I (wrap64 (sum_list (map py_int xs)))
      else F (sum_list (map num_val xs)))"

definition tocsr :: "int \<Rightarrow> coo_matrix \<Rightarrow> error + csr_matrix" where
  "tocsr max_alloc m =
     (let coords = zip (coo_row m) (coo_col m); M = fst (coo_shape m); N = snd (coo_shape m) in
      if 2 ^ 60 \<le> M + 1 then Inl ValueError
      else if max_alloc < M + 1 then Inl MemoryError
      else
        Inr \<lparr>csr_shape = coo_shape m,
             csr_entries =
               map (\<lambda>k. (k, num_sum (map snd (filter (\<lambda>e. fst e = k) (zip coords (coo_data m))))))
                   (sort_key (\<lambda>k. fst k * N + snd k) (remdups coords))\<rparr>)"

text \<open>
  \<open>sp.hstack\<close> of compressed-row blocks: the blocks side by side, each shifted right by
  the widths of the blocks before it. The element type of the result is read off the
  entries: integers when every entry is one, floats otherwise. Blocks of different
  heights are refused with a \<open>ValueError\<close>; a total width of \<open>2^63\<close> or more does not fit
  the index type and is an \<open>OverflowError\<close>; an empty list of blocks fails inside scipy
  with an \<open>IndexError\<close>.
\<close>

fun shifted :: "int \<Rightarrow> csr_matrix list \<Rightarrow> ((int \<times> int) \<times> num) list" where
  "shifted off [] = []"
| "shifted off (b # bs) =
     map (\<lambda>e. ((fst (fst e), snd (fst e) + off), snd e)) (csr_entries b)
       @ shifted (off + snd (csr_shape b)) bs"

definition sp_hstack :: "csr_matrix list \<Rightarrow> error + csr_matrix" where
  "sp_hstack blocks =
     (case blocks of
        [] \<Rightarrow> Inl IndexError
      | b # bs \<Rightarrow>
          if list_ex (\<lambda>b'. fst (csr_shape b') \<noteq> fst (csr_shape b)) bs then Inl ValueError
          else (let N = sum_list (map (\<lambda>b'. snd (csr_shape b')) blocks);
                    es = shifted 0 blocks;
                    es' = (if list_all (\<lambda>e. is_int64 (snd e)) es then es
                           else map (\<lambda>e. (fst e, astype_float64 (snd e))) es)
                in if 2 ^ 63 \<le> max (fst (csr_shape b)) N then Inl OverflowError
                   else Inr \<lparr>csr_shape = (fst (csr_shape b), N),
                             csr_entries = sort_key (\<lambda>e. fst (fst e) * N + snd (fst e)) es'\<rparr>))"

text \<open>
  DataFrames are mutable objects: a reference is an address and the heap gives the
  frame at every address. The frames of this module are labelled by row numbers.
\<close>

type_synonym ref = nat

type_synonym heap = "ref \<Rightarrow> (nat, num) DataFrame"

text \<open>
  \<open>df[name] = vs\<close>: every column already labelled \<open>name\<close> gets the new cells; when
  there is none, a new column is appended. Cells of the wrong number are refused.
\<close>

definition setitem ::
  "('i, 'a) DataFrame \<Rightarrow> string \<Rightarrow> 'a list \<Rightarrow> error + ('i, 'a) DataFrame" where
  "setitem df name vs =
     (if length vs \<noteq> length (index df) then Inl ValueError
      else if name \<in> set (columns df)
        then Inr (df\<lparr>col_data := map (\<lambda>p. if fst p = name then vs else snd p)
                                    (zip (columns df) (col_data df))\<rparr>)
      else Inr (df\<lparr>columns := columns df @ [name], col_data := col_data df @ [vs]\<rparr>))"

text \<open>\<open>np.ones(n)\<close>: \<open>n\<close> floats of value one.\<close>

definition np_ones :: "nat \<Rightarrow> num list" where
  "np_ones n = replicate n (F 1)"

definition implicit_1s_name_default :: string where
  "implicit_1s_name_default = ''implicit 1s''"

text \<open>
  \<open>add_implicit_ones\<close> assigns the column in the frame it was given and returns the
  same reference.
\<close>

definition add_implicit_ones :: "heap \<Rightarrow> ref \<Rightarrow> string \<Rightarrow> heap \<times> (error + ref)" where
  "add_implicit_ones h dataframe implicit_1s_name =
     (case setitem (h dataframe) implicit_1s_name (np_ones (length (index (h dataframe)))) of
        Inl e \<Rightarrow> (h, Inl e)
      | Inr df' \<Rightarrow> (h(dataframe := df'), Inr dataframe))"

text \<open>
  \<open>__call__\<close>: the loop over the frames, with the matrices collected so far, and the
  final \<open>sp.hstack\<close>. \<open>dataframe.shape[1]\<close> is the number of column labels, and
  \<open>max_alloc\<close> is the machine's limit that \<open>tocsr\<close> meets.
\<close>

fun call_loop ::
  "int \<Rightarrow> heap \<Rightarrow> ref list \<Rightarrow> int \<Rightarrow> csr_matrix list
     \<Rightarrow> heap \<times> (error + csr_matrix list)" where
  "call_loop max_alloc h [] rows side_information = (h, Inr side_information)"
| "call_loop max_alloc h (dataframe # rest) rows side_information =
     (if length (columns (h dataframe)) = 2 then
        (case add_implicit_ones h dataframe implicit_1s_name_default of
           (h', Inl e) \<Rightarrow> (h', Inl e)
         | (h', Inr dataframe') \<Rightarrow>
             (case and_then (to_coo (h' dataframe') rows) (tocsr max_alloc) of
                Inl e \<Rightarrow> (h', Inl e)
              | Inr m \<Rightarrow> call_loop max_alloc h' rest rows (side_information @ [m])))
      else if length (columns (h dataframe)) \<noteq> 3 then (h, Inl ValueError)
      else
        (case and_then (to_coo (h dataframe) rows) (tocsr max_alloc) of
           Inl e \<Rightarrow> (h, Inl e)
         | Inr m \<Rightarrow> call_loop max_alloc h rest rows (side_information @ [m])))"

definition SideInformationLoader_call ::
  "int \<Rightarrow> heap \<Rightarrow> ref list \<Rightarrow> int \<Rightarrow> heap \<times> (error + csr_matrix)" where
  "SideInformationLoader_call max_alloc h side_info_dataframes rows =
     (case call_loop max_alloc h side_info_dataframes rows [] of
        (h', Inl e) \<Rightarrow> (h', Inl e)
      | (h', Inr side_information) \<Rightarrow> (h', sp_hstack side_information))"

text \<open>
  A frame is well formed when it has one list of cells per column label and every
  column has one cell per row label. A numeric frame is well formed when, in
  addition, every column holds cells of one kind and its integers fit 64 bits.
\<close>

definition wf_frame :: "('i, 'a) DataFrame \<Rightarrow> bool" where
  "wf_frame df \<longleftrightarrow>
     length (col_data df) = length (columns df)
     \<and> list_all (\<lambda>c. length c = length (index df)) (col_data df)"

definition wf_num_frame :: "('i, num) DataFrame \<Rightarrow> bool" where
  "wf_num_frame df \<longleftrightarrow>
     wf_frame df
     \<and> list_all (\<lambda>c. (list_all is_int64 c \<or> list_all (\<lambda>x. \<not> is_int64 x) c)
                     \<and> list_all in_int64 c) (col_data df)"

text \<open>
  A cell of magnitude at most \<open>2^53\<close>: as an integer it is converted to a float
  without loss.
\<close>

definition small :: "num \<Rightarrow> bool" where
  "small c \<longleftrightarrow> \<bar>num_val c\<bar> \<le> 2 ^ 53"

text \<open>A cell that the conversion to a float leaves at its value.\<close>

definition converts_exactly :: "num \<Rightarrow> bool" where
  "converts_exactly c \<longleftrightarrow> (case c of I k \<Rightarrow> \<bar>k\<bar> \<le> 2 ^ 53 | F x \<Rightarrow> True)"

text \<open>
  The frame after \<open>df["implicit 1s"] = np.ones(len(df))\<close> when no column of \<open>df\<close> has
  that label.
\<close>

definition with_ones :: "(nat, num) DataFrame \<Rightarrow> (nat, num) DataFrame" where
  "with_ones df =
     df\<lparr>columns := columns df @ [implicit_1s_name_default],
        col_data := col_data df @ [np_ones (length (index df))]\<rparr>"

text \<open>
  The frames that \<open>__call__\<close> converts without an error for a given \<open>rows\<close> on a
  machine with the limit \<open>max_alloc\<close>: well formed, with at least one row, without a
  column already labelled \<open>implicit 1s\<close> when there are two columns, with \<open>rows + 2\<close>
  row pointers that numpy accepts and the machine can allocate, and with small cells
  in the first two columns, those of the first with an index in \<open>0..rows\<close>, those of
  the second with an index that is not negative.
\<close>

definition convertible :: "int \<Rightarrow> int \<Rightarrow> (nat, num) DataFrame \<Rightarrow> bool" where
  "convertible max_alloc rows df \<longleftrightarrow>
     wf_num_frame df \<and> index df \<noteq> []
     \<and> (length (columns df) = 2 \<longrightarrow> implicit_1s_name_default \<notin> set (columns df))
     \<and> rows + 2 < 2 ^ 60 \<and> rows + 2 \<le> max_alloc
     \<and> list_all (\<lambda>c. small c \<and> 0 \<le> py_int c \<and> py_int c \<le> rows) (col_data df ! 0)
     \<and> list_all (\<lambda>c. small c \<and> 0 \<le> py_int c) (col_data df ! 1)"


section \<open>evaluation/metrics.py\<close>

text \<open>
  Modelled from the spec: the ranks that \<open>bedroc_score\<close> weighs. The metrics module is
  not among the sources. The spec calls BEDROC a ranking metric: the samples are put
  in the order of their predictions (from the largest when \<open>decreasing\<close>), and the
  ranks, counted from one, of the samples labelled \<open>1\<close> are what the metric sees.
\<close>

definition bedroc_ranks :: "int list \<Rightarrow> real list \<Rightarrow> bool \<Rightarrow> nat list" where
  "bedroc_ranks y_true y_pred decreasing =
     (let order = sort_key (\<lambda>i. if decreasing then - (y_pred ! i) else y_pred ! i)
                    [0..<length y_true]
      in map Suc (filter (\<lambda>k. y_true ! (order ! k) = 1) [0..<length y_true]))"

text \<open>
  Modelled from the spec: \<open>bedroc_score\<close>, which the spec describes as the direct
  application of a published closed-form formula with an exponential weighting
  scheme. The formula is the one of Truchon and Bayley: with \<open>N\<close> samples, \<open>n\<close> of them
  positive, \<open>R\<^sub>a = n / N\<close> and the ranks \<open>r\<close> of the positives, the sum of the weights
  \<open>exp (- alpha * r / N)\<close> is divided by its expectation under a random order, scaled
  and shifted. The formula divides by zero when no sample or every sample is positive,
  or when \<open>alpha\<close> is zero; there, and for vectors of different lengths, the model gives
  no score.
\<close>

definition bedroc_score :: "int list \<Rightarrow> real list \<Rightarrow> bool \<Rightarrow> real \<Rightarrow> real option" where
  "bedroc_score y_true y_pred decreasing alpha =
     (let big_n = length y_true; n = length (filter (\<lambda>y. y = 1) y_true) in
      if length y_pred \<noteq> big_n \<or> n = 0 \<or> n = big_n \<or> alpha = 0 then None
      else
        (let s = (\<Sum>r\<leftarrow>bedroc_ranks y_true y_pred decreasing.
                    exp (- alpha * real r / real big_n));
             r_a = real n / real big_n;
             rand_sum = r_a * (1 - exp (- alpha)) / (exp (alpha / real big_n) - 1);
             fac = r_a * sinh (alpha / 2) / (cosh (alpha / 2) - cosh (alpha / 2 - alpha * r_a));
             cte = 1 / (1 - exp (alpha * (1 - r_a)))
         in Some (s * fac / rand_sum + cte)))"


section \<open>Lemmas on the shared functions\<close>

lemma list_comp_all_ok:
  "(\<And>x. x \<in> set xs \<Longrightarrow> f x = Inr (g x)) \<Longrightarrow> list_comp f xs = Inr (map g xs)"
  by (induction xs) simp_all

lemma foldl_plus_sum_list: "foldl (+) a xs = a + sum_list (xs :: real list)"
  by (induction xs arbitrary: a) simp_all

lemma check_results_None:
  "check_results i rs = None \<longleftrightarrow> (\<forall>x \<in> set rs. isinstance_Results x)"
  by (induction rs arbitrary: i) auto

lemma check_results_Some:
  "check_results i rs = Some e \<Longrightarrow>
     \<exists>k < length rs. e = TypeError (i + k) \<and> \<not> isinstance_Results (rs ! k)
        \<and> (\<forall>j < k. isinstance_Results (rs ! j))"
proof (induction rs arbitrary: i)
  case Nil
  then show ?case by simp
next
  case (Cons r rs)
  show ?case
  proof (cases "isinstance_Results r")
    case False
    with Cons.prems have "e = TypeError i" by simp
    with False show ?thesis by (intro exI [of _ 0]) simp
  next
    case True
    with Cons.prems have "check_results (Suc i) rs = Some e" by simp
    from Cons.IH [OF this] obtain k where k: "k < length rs" "e = TypeError (Suc i + k)"
      "\<not> isinstance_Results (rs ! k)" "\<forall>j < k. isinstance_Results (rs ! j)"
      by blast
    have "\<forall>j < Suc k. isinstance_Results ((r # rs) ! j)"
      using True k(4) by (auto simp: nth_Cons split: nat.splits)
    with k show ?thesis by (intro exI [of _ "Suc k"]) simp
  qed
qed

lemma nth_concat_uniform:
  "(\<And>r. r \<in> set rows \<Longrightarrow> length r = k) \<Longrightarrow> i < length rows \<Longrightarrow> j < k
     \<Longrightarrow> concat rows ! (i * k + j) = rows ! i ! j"
proof (induction rows arbitrary: i)
  case Nil
  then show ?case by simp
next
  case (Cons r rows)
  have len: "length r = k" using Cons.prems(1) by simp
  show ?case
  proof (cases i)
    case 0
    with len Cons.prems(3) show ?thesis by (simp add: nth_append)
  next
    case (Suc i')
    have "concat rows ! (i' * k + j) = rows ! i' ! j"
      using Cons.IH [of i'] Cons.prems Suc by simp
    with len Suc show ?thesis by (simp add: nth_append)
  qed
qed


section \<open>Evaluation: the claims\<close>

text \<open>
  C8. \<open>Evaluation.__init__\<close> raises \<open>TypeError\<close> if and only if some element of the
  list is not an instance of \<open>Results\<close>; when every element is one, the constructor
  returns the object whose \<open>results\<close> attribute is the list it was given, unchanged.
\<close>

theorem Evaluation_init_TypeError_iff:
  "((\<exists>i. Evaluation_init rs = Inl (TypeError i)) \<longleftrightarrow> (\<exists>x \<in> set rs. \<not> isinstance_Results x))
   \<and> ((\<forall>x \<in> set rs. isinstance_Results x) \<longrightarrow> Evaluation_init rs = Inr \<lparr>results = rs\<rparr>)"
proof (cases "check_results 0 rs")
  case None
  then have "\<forall>x \<in> set rs. isinstance_Results x" by (simp add: check_results_None)
  with None show ?thesis by (simp add: Evaluation_init_def)
next
  case (Some e)
  from check_results_Some [OF this] obtain k where
    k: "k < length rs" "e = TypeError (0 + k)" "\<not> isinstance_Results (rs ! k)"
    by blast
  then have "\<exists>x \<in> set rs. \<not> isinstance_Results x" using nth_mem by blast
  with Some k(2) show ?thesis by (auto simp: Evaluation_init_def)
qed

theorem Evaluation_init_TypeError_iff_witness:
  "Evaluation_init [Results (1::nat), Results 2 :: (nat, bool) pyobj]
     = Inr \<lparr>results = [Results 1, Results 2]\<rparr>"
  using Evaluation_init_TypeError_iff [of "[Results (1::nat), Results 2 :: (nat, bool) pyobj]"]
  by simp

text \<open>
  C1. For an \<open>Evaluation\<close> whose list of results is not empty and whose folds all get a
  ROC-AUC score (\<open>auc r\<close> for fold \<open>r\<close>), \<open>compute_avg_auc_loss\<close> returns, as the first
  component of its pair, the mean over the folds of one minus the fold's score.
\<close>

theorem compute_avg_auc_loss_mean:
  assumes "results self \<noteq> []"
    and "\<And>r. r \<in> set (results self) \<Longrightarrow> roc_auc_score r = Inr (auc r)"
  shows "\<exists>sd. compute_avg_auc_loss roc_auc_score self
           = Inr (Fin ((\<Sum>r\<leftarrow>results self. 1 - auc r) / real (length (results self))), sd)"
proof -
  have "list_comp (\<lambda>r. and_then (roc_auc_score r) (\<lambda>auc. Inr (1 - auc))) (results self)
          = Inr (map (\<lambda>r. 1 - auc r) (results self))"
    by (rule list_comp_all_ok) (simp add: assms(2) and_then_def)
  then show ?thesis
    using assms(1)
    by (simp add: compute_avg_auc_loss_def and_then_def np_mean_def foldl_plus_sum_list)
qed

theorem compute_avg_auc_loss_mean_witness:
  "\<exists>sd. compute_avg_auc_loss (\<lambda>r. Inr (if r = (1::nat) then 3 / 4 else 1 / 2))
           \<lparr>results = [1, 2]\<rparr> = Inr (Fin (3 / 8), sd)"
  using compute_avg_auc_loss_mean
    [of "\<lparr>results = [1::nat, 2]\<rparr>" "\<lambda>r. Inr (if r = 1 then 3 / 4 else 1 / 2)"
        "\<lambda>r. if r = 1 then 3 / 4 else 1 / 2"]
  by simp

text \<open>
  C6, as amended. For an \<open>Evaluation\<close> with \<open>F \<ge> 1\<close> results, a list of \<open>K\<close> alphas and a
  \<open>bedroc_score\<close> call that returns a score \<open>s r a\<close> for every fold \<open>r\<close> and alpha \<open>a\<close>,
  \<open>compute_bedroc_scores\<close> returns an array of shape \<open>(F, K)\<close> whose entry \<open>(i, j)\<close> is
  the score of the \<open>i\<close>-th fold with the \<open>j\<close>-th alpha, computed with
  \<open>decreasing=True\<close>.
\<close>

theorem compute_bedroc_scores_shape:
  assumes "results self \<noteq> []"
    and "\<And>r a. r \<in> set (results self) \<Longrightarrow> a \<in> set alphas
           \<Longrightarrow> bedroc_call r True a = Inr (s r a)"
  shows "\<exists>arr. compute_bedroc_scores bedroc_call (Some alphas) self = Inr arr
           \<and> shape arr = [length (results self), length alphas]
           \<and> (\<forall>i < length (results self). \<forall>j < length alphas.
                 item2 arr i j = s (results self ! i) (alphas ! j))"
proof -
  let ?rs = "results self"
  let ?rows = "map (\<lambda>r. map (s r) alphas) ?rs"
  let ?arr = "\<lparr>shape = [length ?rs, length alphas], data = concat ?rows\<rparr>"
  have inner: "list_comp (\<lambda>alpha. bedroc_call r True alpha) alphas = Inr (map (s r) alphas)"
    if "r \<in> set ?rs" for r
    by (rule list_comp_all_ok) (simp add: assms(2) that)
  have outer: "list_comp (\<lambda>r. list_comp (\<lambda>alpha. bedroc_call r True alpha) alphas) ?rs
       = Inr ?rows"
    by (rule list_comp_all_ok) (simp add: inner)
  obtain r0 rest where rs: "?rs = r0 # rest"
    using assms(1) by (cases ?rs) auto
  have "np_array ?rows = Inr ?arr"
    by (simp add: np_array_def rs list_all_iff)
  then have res: "compute_bedroc_scores bedroc_call (Some alphas) self = Inr ?arr"
    by (simp add: compute_bedroc_scores_def and_then_def outer)
  have "item2 ?arr i j = s (?rs ! i) (alphas ! j)"
    if "i < length ?rs" "j < length alphas" for i j
  proof -
    have "concat ?rows ! (i * length alphas + j) = ?rows ! i ! j"
      by (rule nth_concat_uniform) (use that in auto)
    with that show ?thesis by (simp add: item2_def)
  qed
  with res show ?thesis by simp
qed

theorem compute_bedroc_scores_shape_witness:
  "\<exists>arr. compute_bedroc_scores (\<lambda>r d a. Inr (real r * a)) (Some [2, 3, 5])
            \<lparr>results = [1::nat, 7]\<rparr> = Inr arr
         \<and> shape arr = [2, 3] \<and> item2 arr 1 2 = 35"
proof -
  from compute_bedroc_scores_shape
    [of "\<lparr>results = [1::nat, 7]\<rparr>" "[2, 3, 5]" "\<lambda>r d a. Inr (real r * a)"
        "\<lambda>r a. real r * a"]
  obtain arr where
    arr: "compute_bedroc_scores (\<lambda>r d a. Inr (real r * a)) (Some [2, 3, 5])
            \<lparr>results = [1::nat, 7]\<rparr> = Inr arr"
      "shape arr = [2, 3]"
      "\<forall>i < 2. \<forall>j < 3. item2 arr i j = real ([1::nat, 7] ! i) * ([2, 3, 5] ! j)"
    by auto
  from arr(3) have "item2 arr 1 2 = 35" by simp
  with arr(1,2) show ?thesis by blast
qed

text \<open>
  C6 as stated fails for an \<open>Evaluation\<close> with no results: \<open>np.array([])\<close> is the
  one-dimensional array of shape \<open>(0,)\<close>, not an array of shape \<open>(0, K)\<close>. Here \<open>F = 0\<close>
  and \<open>K = 2\<close>.
\<close>

theorem compute_bedroc_scores_empty_counterexample:
  "map_sum id shape
     (compute_bedroc_scores (\<lambda>r d a. Inr 0) (Some [1, 2]) \<lparr>results = ([] :: nat list)\<rparr>)
     = Inr [0]
   \<and> map_sum id shape
     (compute_bedroc_scores (\<lambda>r d a. Inr 0) (Some [1, 2]) \<lparr>results = ([] :: nat list)\<rparr>)
     \<noteq> Inr [length ([] :: nat list), length [1, 2 :: real]]"
  by (simp add: compute_bedroc_scores_def and_then_def np_array_def)


section \<open>Table generation: the claims\<close>

lemma column_names_of_length:
  "length (column_names_of a s alpha_map) = 2 * length alpha_map"
  by (induction alpha_map) (simp_all add: column_names_of_def)

lemma column_names_of_nth:
  "k < length alpha_map \<Longrightarrow>
     column_names_of a s alpha_map ! (2 * k) = a @ '' (top '' @ snd (alpha_map ! k) @ '')''
     \<and> column_names_of a s alpha_map ! (2 * k + 1) = s @ '' (top '' @ snd (alpha_map ! k) @ '')''"
proof (induction alpha_map arbitrary: k)
  case Nil
  then show ?case by simp
next
  case (Cons x xs)
  show ?case
  proof (cases k)
    case 0
    then show ?thesis by (simp add: column_names_of_def)
  next
    case (Suc k')
    with Cons.prems have "k' < length xs" by simp
    from Cons.IH [OF this] Suc show ?thesis
      by (simp add: column_names_of_def)
  qed
qed

text \<open>
  C7. For an array \<open>auc_loss\<close> of shape \<open>(M, 2)\<close> and a list of \<open>M\<close> model names,
  \<open>generate_auc_loss_table\<close> returns a frame whose rows are labelled by the model
  names and whose two columns are the average-loss and the deviation column; the cell
  in row \<open>i\<close> and column \<open>j\<close> is the formatted element \<open>(i, j)\<close> of the array. The
  formatter \<open>f"{x:.2e}"\<close> is the parameter \<open>fmt\<close>.
\<close>

theorem generate_auc_loss_table_shape:
  assumes "shape auc_loss = [M, 2]"
    and "length model_names = M"
  shows "\<exists>df. generate_auc_loss_table fmt auc_loss model_names avg_name std_name = Inr df
           \<and> index df = model_names
           \<and> columns df = [avg_name, std_name]
           \<and> length (col_data df) = 2
           \<and> (\<forall>j < 2. length (col_data df ! j) = M)
           \<and> (\<forall>i < M. \<forall>j < 2. cell df i j = fmt (item2 auc_loss i j))"
proof -
  let ?cols = "map (\<lambda>j. map (\<lambda>i. data auc_loss ! (i * 2 + j)) [0..<M]) [0..<2]"
  let ?df = "\<lparr>index = model_names, columns = [avg_name, std_name],
               col_data = map (map fmt) ?cols\<rparr>"
  have res: "generate_auc_loss_table fmt auc_loss model_names avg_name std_name = Inr ?df"
    using assms
    by (simp add: generate_auc_loss_table_def pd_DataFrame_def and_then_def DataFrame_map_def)
  have cells: "cell ?df i j = fmt (item2 auc_loss i j)" if "i < M" "j < 2" for i j
    using that assms(1) by (simp add: cell_def item2_def)
  have lens: "length (col_data ?df ! j) = M" if "j < 2" for j
    using that by simp
  show ?thesis
    using res cells lens by (intro exI [of _ ?df]) simp
qed

theorem generate_auc_loss_table_shape_witness:
  "\<exists>df. generate_auc_loss_table (\<lambda>x. if x = (1::nat) then ''1.00e+00'' else ''other'')
            \<lparr>shape = [1, 2], data = [1, 5]\<rparr> [''model'']
            avg_auc_loss_name_default std_auc_loss_name_default = Inr df
         \<and> index df = [''model'']
         \<and> columns df = [''Averaged 1-AUC error'', ''Std 1-AUC error'']
         \<and> cell df 0 0 = ''1.00e+00''"
proof -
  from generate_auc_loss_table_shape
    [of "\<lparr>shape = [1, 2], data = [1::nat, 5]\<rparr>" 1 "[''model'']"
        "\<lambda>x. if x = (1::nat) then ''1.00e+00'' else ''other''"
        avg_auc_loss_name_default std_auc_loss_name_default]
  obtain df where
    df: "generate_auc_loss_table (\<lambda>x. if x = (1::nat) then ''1.00e+00'' else ''other'')
            \<lparr>shape = [1, 2], data = [1, 5]\<rparr> [''model'']
            avg_auc_loss_name_default std_auc_loss_name_default = Inr df"
      "index df = [''model'']"
      "columns df = [avg_auc_loss_name_default, std_auc_loss_name_default]"
      "\<forall>i < 1. \<forall>j < 2. cell df i j
          = (if item2 \<lparr>shape = [1, 2], data = [1::nat, 5]\<rparr> i j = 1 then ''1.00e+00'' else ''other'')"
    by auto
  from df(4) have "cell df 0 0 = ''1.00e+00''" by (simp add: item2_def)
  with df(1,2,3) show ?thesis
    by (auto simp: avg_auc_loss_name_default_def std_auc_loss_name_default_def)
qed

text \<open>
  C4. For a three-dimensional array of shape \<open>(A, D, M)\<close> with positive dimensions, a
  list of \<open>M\<close> model names and an \<open>alpha_map\<close> of \<open>A\<close> entries,
  \<open>generate_bedroc_table\<close> returns a frame with the \<open>M\<close> model names as row labels and
  \<open>2 * A\<close> columns of \<open>M\<close> cells each; for the \<open>k\<close>-th label of \<open>alpha_map\<close>, column
  \<open>2 * k\<close> is named after the average and column \<open>2 * k + 1\<close> after the deviation.
\<close>

theorem generate_bedroc_table_shape:
  assumes "shape bedroc = [A, D, M]"
    and "0 < A" and "0 < D" and "0 < M"
    and "length model_names = M"
    and "length alpha_map = A"
  shows "\<exists>df. generate_bedroc_table fmt bedroc model_names alpha_map avg_name std_name = Inr df
           \<and> index df = model_names
           \<and> length (columns df) = 2 * A
           \<and> length (col_data df) = 2 * A
           \<and> (\<forall>j < 2 * A. length (col_data df ! j) = M)
           \<and> (\<forall>k < A. columns df ! (2 * k) = avg_name @ '' (top '' @ snd (alpha_map ! k) @ '')''
                    \<and> columns df ! (2 * k + 1)
                        = std_name @ '' (top '' @ snd (alpha_map ! k) @ '')'')"
proof -
  obtain m where m: "reduce_axis1 np_mean bedroc = Inr m" "shape m = [A, M]"
    using assms(1) by (simp add: reduce_axis1_def)
  obtain s where s: "reduce_axis1 np_std bedroc = Inr s" "shape s = [A, M]"
    using assms(1) by (simp add: reduce_axis1_def)
  obtain h where h: "np_hstack m s = Inr h" "shape h = [A, M + M]"
    using m(2) s(2) by (simp add: np_hstack_def atleast_1d_def)
  have "size_of h = M * (A * 2)"
    using h(2) by (simp add: size_of_def algebra_simps)
  then obtain b where b: "reshape_rows h (A * 2) = Inr b" "shape b = [M, A * 2]"
    using assms(2) by (simp add: reshape_rows_def)
  let ?names = "column_names_of avg_name std_name alpha_map"
  have len: "length ?names = A * 2"
    using assms(6) by (simp add: column_names_of_length)
  obtain df0 where df0: "pd_DataFrame b ?names model_names = Inr df0"
    "index df0 = model_names" "columns df0 = ?names"
    "length (col_data df0) = A * 2" "\<forall>j < A * 2. length (col_data df0 ! j) = M"
    using b(2) len assms(5) by (simp add: pd_DataFrame_def)
  let ?df = "DataFrame_map fmt df0"
  have res: "generate_bedroc_table fmt bedroc model_names alpha_map avg_name std_name = Inr ?df"
    using assms(1,6) m(1) s(1) h(1) b(1) df0(1)
    by (simp add: generate_bedroc_table_def and_then_def)
  have names: "columns ?df ! (2 * k) = avg_name @ '' (top '' @ snd (alpha_map ! k) @ '')''
      \<and> columns ?df ! (2 * k + 1) = std_name @ '' (top '' @ snd (alpha_map ! k) @ '')''"
    if "k < A" for k
    using column_names_of_nth [of k alpha_map avg_name std_name] that assms(6) df0(3)
    by (simp add: DataFrame_map_def)
  have lens: "length (col_data ?df ! j) = M" if "j < 2 * A" for j
    using that df0(4,5) by (simp add: DataFrame_map_def)
  show ?thesis
    using res names lens df0(2,3,4) len
    by (intro exI [of _ ?df]) (simp add: DataFrame_map_def)
qed

theorem generate_bedroc_table_shape_witness:
  "\<exists>df. generate_bedroc_table (\<lambda>x. ''cell'') \<lparr>shape = [2, 1, 1], data = [1 / 2, 1 / 4]\<rparr>
            [''model''] [(100, ''1%''), (10, ''10%'')]
            avg_bedroc_score_name_default std_bedroc_score_name_default = Inr df
         \<and> index df = [''model'']
         \<and> length (columns df) = 4
         \<and> columns df ! 2 = ''Averaged BEDROC score (top 10%)''
         \<and> columns df ! 3 = ''Std BEDROC score (top 10%)''"
proof -
  from generate_bedroc_table_shape
    [of "\<lparr>shape = [2, 1, 1], data = [1 / 2, 1 / 4]\<rparr>" 2 1 1 "[''model'']"
        "[(100, ''1%''), (10, ''10%'')]" "\<lambda>x. ''cell''"
        avg_bedroc_score_name_default std_bedroc_score_name_default]
  obtain df where
    df: "generate_bedroc_table (\<lambda>x. ''cell'') \<lparr>shape = [2, 1, 1], data = [1 / 2, 1 / 4]\<rparr>
            [''model''] [(100, ''1%''), (10, ''10%'')]
            avg_bedroc_score_name_default std_bedroc_score_name_default = Inr df"
      "index df = [''model'']"
      "length (columns df) = 4"
      "\<forall>k < 2. columns df ! (2 * k)
           = avg_bedroc_score_name_default @ '' (top ''
               @ snd ([(100::real, ''1%''), (10, ''10%'')] ! k) @ '')''
         \<and> columns df ! (2 * k + 1)
           = std_bedroc_score_name_default @ '' (top ''
               @ snd ([(100::real, ''1%''), (10, ''10%'')] ! k) @ '')''"
    by auto
  from df(4) have "columns df ! 2 = ''Averaged BEDROC score (top 10%)''
      \<and> columns df ! 3 = ''Std BEDROC score (top 10%)''"
    by (auto simp: avg_bedroc_score_name_default_def std_bedroc_score_name_default_def
        dest: spec [of _ 1])
  with df(1,2,3) show ?thesis by blast
qed


section \<open>Side information loader: conversion to coordinate format\<close>

lemma ulp53_small: "m < 2 ^ 53 \<Longrightarrow> ulp53 m = 1"
  by (subst ulp53.simps) simp

lemma int64_to_float64_pow53:
  "int64_to_float64 (2 ^ 53) = 2 ^ 53" "int64_to_float64 (- (2 ^ 53)) = - (2 ^ 53)"
  by (simp_all add: int64_to_float64_def round_half_even_def ulp53.simps)

lemma int64_to_float64_exact:
  assumes "\<bar>k\<bar> \<le> 2 ^ 53"
  shows "int64_to_float64 k = of_int k"
proof (cases "\<bar>k\<bar> < 2 ^ 53")
  case True
  then have "nat \<bar>k\<bar> < 2 ^ 53" by (simp add: nat_less_iff)
  then have "ulp53 (nat \<bar>k\<bar>) = 1" by (rule ulp53_small)
  then show ?thesis by (simp add: int64_to_float64_def round_half_even_def)
next
  case False
  with assms have "\<bar>k\<bar> = 2 ^ 53" by simp
  then have "k = 2 ^ 53 \<or> k = - (2 ^ 53)" by (auto simp: abs_if split: if_splits)
  then show ?thesis
    using int64_to_float64_pow53 by auto
qed

lemma trunc_of_int: "trunc (of_int k) = k"
  by (simp add: trunc_def)

lemma trunc_mono: "x \<le> y \<Longrightarrow> trunc x \<le> trunc y"
proof -
  assume xy: "x \<le> y"
  consider "0 \<le> x" | "x < 0" "0 \<le> y" | "y < 0" by linarith
  then show ?thesis
  proof cases
    case 1
    with xy show ?thesis by (simp add: trunc_def floor_mono)
  next
    case 2
    then have "\<lceil>x\<rceil> \<le> 0" "0 \<le> \<lfloor>y\<rfloor>" by (simp_all add: ceiling_le_zero)
    then have "\<lceil>x\<rceil> \<le> \<lfloor>y\<rfloor>" by linarith
    with 2 show ?thesis by (simp add: trunc_def)
  next
    case 3
    with xy show ?thesis by (simp add: trunc_def ceiling_mono)
  qed
qed

lemma py_int_trunc: "py_int c = trunc (num_val c)"
  by (cases c) (simp_all add: trunc_of_int)

lemma small_astype: "small c \<Longrightarrow> num_val (astype_float64 c) = num_val c"
proof (cases c)
  case (I k)
  assume "small c"
  with I have "\<bar>k\<bar> \<le> 2 ^ 53"
    by (simp add: small_def)
  with I show ?thesis by (simp add: int64_to_float64_exact)
next
  case (F x)
  then show ?thesis by simp
qed

lemma small_upcast: "small c \<Longrightarrow> num_val (upcast df c) = num_val c"
  by (simp add: upcast_def small_astype)

lemma small_upcast_py_int: "small c \<Longrightarrow> py_int (upcast df c) = py_int c"
  by (simp add: py_int_trunc small_upcast)

lemma small_py_int_le: "small c \<Longrightarrow> py_int c \<le> 2 ^ 53"
proof -
  assume "small c"
  then have "num_val c \<le> 2 ^ 53" by (simp add: small_def)
  then have "trunc (num_val c) \<le> trunc (2 ^ 53)" by (rule trunc_mono)
  moreover have "trunc (2 ^ 53) = 2 ^ 53" using trunc_of_int [of "2 ^ 53"] by simp
  ultimately show ?thesis by (simp add: py_int_trunc)
qed

lemma num_val_fold_max:
  "num_val (fold num_max xs x) = Max (insert (num_val x) (num_val ` set xs))"
proof (induction xs arbitrary: x)
  case Nil
  then show ?case by simp
next
  case (Cons y ys)
  have "num_val (num_max y x) = max (num_val y) (num_val x)"
    by (simp add: num_max_def max_def)
  then have "num_val (fold num_max (y # ys) x)
      = Max (insert (max (num_val y) (num_val x)) (num_val ` set ys))"
    by (simp add: Cons.IH)
  also have "\<dots> = Max (insert (num_val x) (num_val ` set (y # ys)))"
  proof (cases "set ys = {}")
    case True
    then show ?thesis by (simp add: max.commute)
  next
    case False
    then show ?thesis by (simp add: max.assoc max.commute max.left_commute)
  qed
  finally show ?case .
qed

lemma take1_drop: "k < length xs \<Longrightarrow> take (Suc 0) (drop k xs) = [xs ! k]"
  by (simp add: take_Suc_conv_app_nth)

lemma concat_singletons: "concat (map (\<lambda>i. [f i]) is) = map f is"
  by (induction "is") simp_all

lemma length_concat_uniform:
  "(\<And>r. r \<in> set rows \<Longrightarrow> length r = k) \<Longrightarrow> length (concat rows) = length rows * k"
  by (induction rows) simp_all

lemma column_slice_to_numpy:
  assumes wf: "wf_frame df" and j: "j < length (columns df)"
  shows "column_slice (to_numpy df) j
           = Inr \<lparr>shape = [length (index df)], data = map (upcast df) (col_data df ! j)\<rparr>"
proof -
  let ?m = "length (index df)"
  let ?n = "length (columns df)"
  let ?rows = "map (\<lambda>i. map (\<lambda>c. upcast df (c ! i)) (col_data df)) [0..<?m]"
  have n: "length (col_data df) = ?n" using wf by (simp add: wf_frame_def)
  have colj: "length (col_data df ! j) = ?m"
    using wf j n by (simp add: wf_frame_def list_all_length)
  have "length (concat ?rows) = length ?rows * ?n"
    by (rule length_concat_uniform) (use n in auto)
  then have len: "length (concat ?rows) = ?m * ?n" by simp
  have elem: "take (Suc 0) (drop (i * ?n + j) (concat ?rows)) = [upcast df (col_data df ! j ! i)]"
    if i: "i < ?m" for i
  proof -
    have "i * ?n + j < Suc i * ?n" using j by simp
    also have "\<dots> \<le> ?m * ?n" using i by (intro mult_le_mono1) simp
    finally have "i * ?n + j < length (concat ?rows)" using len by simp
    moreover have "concat ?rows ! (i * ?n + j) = ?rows ! i ! j"
      by (rule nth_concat_uniform) (use n i j in auto)
    ultimately show ?thesis using i j n by (simp add: take1_drop)
  qed
  have "concat (map (\<lambda>i. take (Suc 0) (drop (i * ?n + j) (concat ?rows))) [0..<?m])
          = concat (map (\<lambda>i. [upcast df (col_data df ! j ! i)]) [0..<?m])"
    by (rule arg_cong [where f = concat], rule map_cong) (simp_all add: elem)
  also have "\<dots> = map (\<lambda>i. upcast df (col_data df ! j ! i)) [0..<?m]"
    by (rule concat_singletons)
  also have "\<dots> = map (upcast df) (map ((!) (col_data df ! j)) [0..<length (col_data df ! j)])"
    by (simp add: colj)
  also have "\<dots> = map (upcast df) (col_data df ! j)"
    by (simp only: map_nth)
  finally show ?thesis
    using j by (simp add: column_slice_def to_numpy_def)
qed

lemma to_coo_ok:
  assumes wf: "wf_frame df" and n3: "3 \<le> length (columns df)" and ne: "index df \<noteq> []"
    and rows: "rows + 1 < 2 ^ 63"
    and r_ok: "\<And>c. c \<in> set (col_data df ! 0) \<Longrightarrow> small c \<and> 0 \<le> py_int c \<and> py_int c \<le> rows"
    and c_ok: "\<And>c. c \<in> set (col_data df ! 1) \<Longrightarrow> small c \<and> 0 \<le> py_int c"
  shows "to_coo df rows
           = Inr \<lparr>coo_shape = (rows + 1, Max (py_int ` set (col_data df ! 1)) + 1),
                  coo_row = map py_int (col_data df ! 0),
                  coo_col = map py_int (col_data df ! 1),
                  coo_data = map (upcast df) (col_data df ! 2)\<rparr>"
proof -
  let ?c0 = "col_data df ! 0" and ?c1 = "col_data df ! 1" and ?c2 = "col_data df ! 2"
  let ?u = "upcast df"
  have n: "length (col_data df) = length (columns df)" using wf by (simp add: wf_frame_def)
  have lt: "0 < length (columns df)" "1 < length (columns df)" "2 < length (columns df)"
    using n3 by linarith+
  have "\<forall>k < length (columns df). length (col_data df ! k) = length (index df)"
    using wf n by (simp add: wf_frame_def list_all_length)
  with lt have lens: "length ?c0 = length (index df)" "length ?c1 = length (index df)"
    "length ?c2 = length (index df)"
    by blast+
  have s0: "column_slice (to_numpy df) 0 = Inr \<lparr>shape = [length (index df)], data = map ?u ?c0\<rparr>"
    by (rule column_slice_to_numpy [OF wf lt(1)])
  have s1: "column_slice (to_numpy df) 1 = Inr \<lparr>shape = [length (index df)], data = map ?u ?c1\<rparr>"
    by (rule column_slice_to_numpy [OF wf lt(2)])
  have s2: "column_slice (to_numpy df) 2 = Inr \<lparr>shape = [length (index df)], data = map ?u ?c2\<rparr>"
    by (rule column_slice_to_numpy [OF wf lt(3)])
  from ne lens(2) obtain x xs where c1: "?c1 = x # xs" by (cases ?c1) auto
  define mx where "mx = fold num_max (map ?u xs) (?u x)"
  have mx: "np_max \<lparr>shape = [length (index df)], data = map ?u ?c1\<rparr> = Inr mx"
    using c1 by (simp add: np_max_def mx_def)
  have rows_eq: "map py_int (map ?u ?c0) = map py_int ?c0"
    using r_ok by (simp add: small_upcast_py_int)
  have cols_eq: "map py_int (map ?u ?c1) = map py_int ?c1"
    using c_ok by (simp add: small_upcast_py_int)
  have "num_val mx = Max (num_val ` set ?c1)"
  proof -
    have "num_val mx = Max (insert (num_val (?u x)) (num_val ` set (map ?u xs)))"
      unfolding mx_def by (rule num_val_fold_max)
    also have "insert (num_val (?u x)) (num_val ` set (map ?u xs)) = num_val ` ?u ` set ?c1"
      using c1 by simp
    also have "num_val ` ?u ` set ?c1 = num_val ` set ?c1"
      using c_ok by (force simp: small_upcast image_iff)
    finally show ?thesis .
  qed
  then have "py_int mx = trunc (Max (num_val ` set ?c1))"
    by (simp add: py_int_trunc)
  also have "\<dots> = Max (trunc ` num_val ` set ?c1)"
    by (rule mono_Max_commute) (use c1 in \<open>auto simp: mono_def trunc_mono\<close>)
  also have "trunc ` num_val ` set ?c1 = py_int ` set ?c1"
    by (simp add: image_image py_int_trunc)
  finally have mx_eq: "py_int mx = Max (py_int ` set ?c1)" .
  let ?N = "Max (py_int ` set ?c1) + 1"
  have in1: "py_int y \<le> Max (py_int ` set ?c1)" if "y \<in> set ?c1" for y
    using that by simp
  have "x \<in> set ?c1" using c1 by simp
  then have "0 \<le> py_int x" "py_int x \<le> Max (py_int ` set ?c1)"
    using c_ok in1 by blast+
  then have Npos: "\<not> ?N < 0" by simp
  have small_bound: "py_int y \<le> 2 ^ 53" if "small y" for y
  proof -
    have "num_val y \<le> 2 ^ 53" using that by (simp add: small_def)
    then have "trunc (num_val y) \<le> trunc (2 ^ 53)"
      by (rule trunc_mono)
    moreover have "trunc (2 ^ 53) = 2 ^ 53"
      using trunc_of_int [of "2 ^ 53"] by simp
    ultimately show ?thesis by (simp add: py_int_trunc)
  qed
  have "Max (py_int ` set ?c1) \<le> 2 ^ 53"
    using c1 c_ok small_bound by (subst Max_le_iff) auto
  then have Nbound: "?N < 2 ^ 63" by simp
  have ovf: "\<not> 2 ^ 63 \<le> max (rows + 1) ?N"
    using rows Nbound by simp
  have rows_pos: "\<not> rows + 1 < 0"
  proof -
    from ne lens(1) obtain y ys where "?c0 = y # ys" by (cases ?c0) auto
    then have "y \<in> set ?c0" by simp
    from r_ok [OF this] show ?thesis by simp
  qed
  have r1: "\<not> list_ex (\<lambda>i. rows + 1 \<le> i) (map py_int ?c0)"
    using r_ok by (fastforce simp: list_ex_iff)
  have r2: "\<not> list_ex (\<lambda>i. i < 0) (map py_int ?c0)"
    using r_ok by (fastforce simp: list_ex_iff)
  have c2: "\<not> list_ex (\<lambda>j. j < 0) (map py_int ?c1)"
    using c_ok by (fastforce simp: list_ex_iff)
  have c3: "\<not> list_ex (\<lambda>j. ?N \<le> j) (map py_int ?c1)"
  proof
    assume "list_ex (\<lambda>j. ?N \<le> j) (map py_int ?c1)"
    then obtain y where y: "y \<in> set ?c1" "?N \<le> py_int y"
      by (auto simp: list_ex_iff)
    from in1 [OF y(1)] y(2) show False by linarith
  qed
  have re: "map (py_int \<circ> ?u) ?c0 = map py_int ?c0"
    using rows_eq by simp
  have ce: "map (py_int \<circ> ?u) ?c1 = map py_int ?c1"
    using cols_eq by simp
  have checks: "\<not> list_ex (\<lambda>i. rows + 1 \<le> i) (map (py_int \<circ> ?u) ?c0)"
    "\<not> list_ex (\<lambda>i. i < 0) (map (py_int \<circ> ?u) ?c0)"
    "\<not> list_ex (\<lambda>j. j < 0) (map (py_int \<circ> ?u) ?c1)"
    "\<not> list_ex (\<lambda>j. ?N \<le> j) (map (py_int \<circ> ?u) ?c1)"
    unfolding re ce using r1 r2 c2 c3 by blast+
  show ?thesis
    using Npos rows_pos ovf checks lens s0 s1 s2 mx mx_eq rows_eq cols_eq
    by (simp add: to_coo_def and_then_def sp_coo_matrix_def Let_def)
qed

lemma converts_exactly_upcast: "converts_exactly c \<Longrightarrow> num_val (upcast df c) = num_val c"
  by (cases c) (simp_all add: converts_exactly_def upcast_def int64_to_float64_exact)

lemma index_column:
  assumes "map num_val col = map real_of_int ks" and "\<forall>k \<in> set ks. 0 \<le> k \<and> k \<le> 2 ^ 53"
  shows "map py_int col = ks" and "\<And>c. c \<in> set col \<Longrightarrow> small c \<and> py_int c \<in> set ks"
proof -
  have "map py_int col = map trunc (map num_val col)"
    by (simp add: py_int_trunc comp_def)
  also have "\<dots> = ks"
    by (simp add: assms(1) trunc_of_int comp_def)
  finally show eq: "map py_int col = ks" .
  fix c assume c: "c \<in> set col"
  then have "py_int c \<in> set (map py_int col)" by simp
  then have mem: "py_int c \<in> set ks" by (simp only: eq)
  from c have "num_val c \<in> set (map num_val col)" by simp
  then obtain k where k: "k \<in> set ks" "num_val c = of_int k"
    unfolding assms(1) by auto
  with assms(2) have "0 \<le> k" "k \<le> 2 ^ 53" by auto
  then have "\<bar>real_of_int k\<bar> \<le> 2 ^ 53"
    by (metis abs_of_nonneg of_int_0_le_iff of_int_le_iff of_int_numeral of_int_power)
  with k(2) mem show "small c \<and> py_int c \<in> set ks" by (simp add: small_def)
qed

text \<open>
  C2, as amended. For a well-formed numeric frame with at least three columns and at
  least one row, whose first column holds integers \<open>rs\<close> between \<open>0\<close> and \<open>rows\<close> and
  whose second column holds integers \<open>cs\<close> that are not negative, all of them at most
  \<open>2^53\<close>, whose third-column cells convert to floats exactly, and for
  \<open>rows + 1 < 2^63\<close>, \<open>to_coo\<close> returns a matrix with as many stored entries as the
  frame has rows, and its \<open>i\<close>-th entry has the row index, the column index and the
  third-column cell of the \<open>i\<close>-th row of the frame.
\<close>

theorem to_coo_entries:
  assumes "wf_num_frame df" and "3 \<le> length (columns df)" and "index df \<noteq> []"
    and "rows + 1 < 2 ^ 63"
    and "map num_val (col_data df ! 0) = map real_of_int rs"
    and "map num_val (col_data df ! 1) = map real_of_int cs"
    and "\<forall>r \<in> set rs. 0 \<le> r \<and> r \<le> rows \<and> r \<le> 2 ^ 53"
    and "\<forall>c \<in> set cs. 0 \<le> c \<and> c \<le> 2 ^ 53"
    and "\<forall>v \<in> set (col_data df ! 2). converts_exactly v"
  shows "\<exists>m. to_coo df rows = Inr m
           \<and> nnz m = length (index df)
           \<and> (\<forall>i < length (index df).
                 coo_entries m ! i = (rs ! i, cs ! i, num_val (col_data df ! 2 ! i)))"
proof -
  let ?m = "\<lparr>coo_shape = (rows + 1, Max (py_int ` set (col_data df ! 1)) + 1),
             coo_row = map py_int (col_data df ! 0),
             coo_col = map py_int (col_data df ! 1),
             coo_data = map (upcast df) (col_data df ! 2)\<rparr>"
  have wf: "wf_frame df" using assms(1) by (simp add: wf_num_frame_def)
  have rs_bound: "\<forall>r \<in> set rs. 0 \<le> r \<and> r \<le> 2 ^ 53" using assms(7) by simp
  note col0 = index_column [OF assms(5) rs_bound]
  note col1 = index_column [OF assms(6) assms(8)]
  have res: "to_coo df rows = Inr ?m"
  proof (rule to_coo_ok [OF wf assms(2,3,4)])
    fix c assume "c \<in> set (col_data df ! 0)"
    from col0(2) [OF this] assms(7)
    show "small c \<and> 0 \<le> py_int c \<and> py_int c \<le> rows" by blast
  next
    fix c assume "c \<in> set (col_data df ! 1)"
    from col1(2) [OF this] assms(8)
    show "small c \<and> 0 \<le> py_int c" by blast
  qed
  have n: "length (col_data df) = length (columns df)"
    using wf by (simp add: wf_frame_def)
  have lt: "0 < length (columns df)" "1 < length (columns df)" "2 < length (columns df)"
    using assms(2) by linarith+
  have "\<forall>k < length (columns df). length (col_data df ! k) = length (index df)"
    using wf n by (simp add: wf_frame_def list_all_length)
  with lt have lens: "length (col_data df ! 0) = length (index df)"
    "length (col_data df ! 1) = length (index df)"
    "length (col_data df ! 2) = length (index df)"
    by blast+
  have lrs: "length rs = length (index df)" "length cs = length (index df)"
    using lens(1,2) col0(1) col1(1) by (metis length_map)+
  have "coo_entries ?m ! i = (rs ! i, cs ! i, num_val (col_data df ! 2 ! i))"
    if i: "i < length (index df)" for i
  proof -
    have "col_data df ! 2 ! i \<in> set (col_data df ! 2)"
      using i lens(3) by simp
    with assms(9) have "converts_exactly (col_data df ! 2 ! i)" by blast
    then have "num_val (upcast df (col_data df ! 2 ! i)) = num_val (col_data df ! 2 ! i)"
      by (rule converts_exactly_upcast)
    then show ?thesis
      using i lrs lens(3) col0(1) col1(1) by (simp add: coo_entries_def)
  qed
  moreover have "nnz ?m = length (index df)"
    using lens(3) by (simp add: nnz_def)
  ultimately show ?thesis using res by blast
qed

theorem to_coo_entries_witness:
  "\<exists>m. to_coo \<lparr>index = [0::nat, 1], columns = [''gene'', ''term_id'', ''score''],
                  col_data = [[I 0, I 2], [I 1, I 3], [F (1 / 2), F (1 / 4)]]\<rparr> 2 = Inr m
        \<and> nnz m = 2 \<and> coo_entries m ! 1 = (2, 3, 1 / 4)"
proof -
  from to_coo_entries
    [of "\<lparr>index = [0::nat, 1], columns = [''gene'', ''term_id'', ''score''],
           col_data = [[I 0, I 2], [I 1, I 3], [F (1 / 2), F (1 / 4)]]\<rparr>" 2 "[0, 2]" "[1, 3]"]
  obtain m where
    m: "to_coo \<lparr>index = [0::nat, 1], columns = [''gene'', ''term_id'', ''score''],
                 col_data = [[I 0, I 2], [I 1, I 3], [F (1 / 2), F (1 / 4)]]\<rparr> 2 = Inr m"
      "nnz m = 2"
      "\<forall>i < 2. coo_entries m ! i
         = ([0, 2] ! i, [1, 3] ! i, num_val ([F (1 / 2), F (1 / 4)] ! i))"
    by (auto simp: wf_num_frame_def wf_frame_def converts_exactly_def)
  from m(3) have "coo_entries m ! 1 = (2, 3, 1 / 4)" by simp
  with m(1,2) show ?thesis by blast
qed

text \<open>
  C2 as stated fails when a row index does not fit the matrix: with \<open>rows = 2\<close> the
  matrix has three rows, and the constructor refuses the row index \<open>5\<close> with a
  \<open>ValueError\<close>, so no matrix is returned for this frame of three columns and one row.
\<close>

theorem to_coo_row_out_of_range_counterexample:
  "to_coo \<lparr>index = [0::nat], columns = [''gene'', ''term_id'', ''score''],
           col_data = [[I 5], [I 0], [F 1]]\<rparr> 2 = Inl ValueError"
  by (simp add: to_coo_def to_numpy_def column_slice_def np_max_def sp_coo_matrix_def
      and_then_def upcast_def int64_to_float64_def round_half_even_def ulp53.simps trunc_def)

text \<open>
  C9, as amended. For a well-formed numeric frame with at least three columns and at
  least one row, whose first column holds integers between \<open>0\<close> and \<open>rows\<close> and whose
  second column holds integers \<open>cs\<close> that are not negative, all of them at most
  \<open>2^53\<close>, and for \<open>0 \<le> rows\<close> and \<open>rows + 1 < 2^63\<close>, \<open>to_coo\<close> returns a matrix of
  shape \<open>(rows + 1, max + 1)\<close>, where \<open>max\<close> is the largest value of the second column.
\<close>

theorem to_coo_shape:
  assumes "wf_num_frame df" and "3 \<le> length (columns df)" and "index df \<noteq> []"
    and "0 \<le> rows" and "rows + 1 < 2 ^ 63"
    and "map num_val (col_data df ! 0) = map real_of_int rs"
    and "map num_val (col_data df ! 1) = map real_of_int cs"
    and "\<forall>r \<in> set rs. 0 \<le> r \<and> r \<le> rows \<and> r \<le> 2 ^ 53"
    and "\<forall>c \<in> set cs. 0 \<le> c \<and> c \<le> 2 ^ 53"
  shows "\<exists>m. to_coo df rows = Inr m \<and> coo_shape m = (rows + 1, Max (set cs) + 1)"
proof -
  have wf: "wf_frame df" using assms(1) by (simp add: wf_num_frame_def)
  have rs_bound: "\<forall>r \<in> set rs. 0 \<le> r \<and> r \<le> 2 ^ 53" using assms(8) by simp
  note col0 = index_column [OF assms(6) rs_bound]
  note col1 = index_column [OF assms(7) assms(9)]
  have res: "to_coo df rows
      = Inr \<lparr>coo_shape = (rows + 1, Max (py_int ` set (col_data df ! 1)) + 1),
             coo_row = map py_int (col_data df ! 0),
             coo_col = map py_int (col_data df ! 1),
             coo_data = map (upcast df) (col_data df ! 2)\<rparr>"
  proof (rule to_coo_ok [OF wf assms(2,3,5)])
    fix c assume "c \<in> set (col_data df ! 0)"
    from col0(2) [OF this] assms(8)
    show "small c \<and> 0 \<le> py_int c \<and> py_int c \<le> rows" by blast
  next
    fix c assume "c \<in> set (col_data df ! 1)"
    from col1(2) [OF this] assms(9)
    show "small c \<and> 0 \<le> py_int c" by blast
  qed
  have "py_int ` set (col_data df ! 1) = set (map py_int (col_data df ! 1))" by simp
  also have "\<dots> = set cs" by (simp only: col1(1))
  finally have "Max (py_int ` set (col_data df ! 1)) = Max (set cs)" by simp
  with res show ?thesis by simp
qed

theorem to_coo_shape_witness:
  "\<exists>m. to_coo \<lparr>index = [0::nat, 1, 2], columns = [''gene'', ''term_id'', ''score''],
                  col_data = [[I 4, I 0, I 1], [I 2, I 6, I 0], [F 1, F 1, F 3]]\<rparr> 4 = Inr m
        \<and> coo_shape m = (5, 7)"
  using to_coo_shape
    [of "\<lparr>index = [0::nat, 1, 2], columns = [''gene'', ''term_id'', ''score''],
           col_data = [[I 4, I 0, I 1], [I 2, I 6, I 0], [F 1, F 1, F 3]]\<rparr>" 4
        "[4, 0, 1]" "[2, 6, 0]"]
  by (simp add: wf_num_frame_def wf_frame_def)

text \<open>
  C9 as stated fails when a column index is negative: the constructor refuses it with
  a \<open>ValueError\<close>, so for this frame and \<open>rows = 0\<close> no matrix is returned.
\<close>

theorem to_coo_negative_column_counterexample:
  "to_coo \<lparr>index = [0::nat], columns = [''gene'', ''term_id'', ''score''],
           col_data = [[I 0], [I (- 1)], [F 1]]\<rparr> 0 = Inl ValueError"
  by (simp add: to_coo_def to_numpy_def column_slice_def np_max_def sp_coo_matrix_def
      and_then_def upcast_def int64_to_float64_def round_half_even_def ulp53.simps trunc_def)

text \<open>
  Outside these bounds the conversion behaves differently. Beside a column of floats
  the integer \<open>2^53 + 1\<close> becomes the float \<open>2^53\<close>, and that is the row index stored;
  and a dimension of \<open>2^63\<close>, from a column index or from \<open>rows\<close>, is an
  \<open>OverflowError\<close>.
\<close>

lemma to_coo_rounds_beyond_53_bits:
  "to_coo \<lparr>index = [0::nat], columns = [''gene'', ''term_id'', ''score''],
           col_data = [[I (2 ^ 53 + 1)], [I 0], [F 1]]\<rparr> (2 ^ 60)
     = Inr \<lparr>coo_shape = (2 ^ 60 + 1, 1), coo_row = [2 ^ 53], coo_col = [0], coo_data = [F 1]\<rparr>"
  by (simp add: to_coo_def to_numpy_def column_slice_def np_max_def sp_coo_matrix_def
      and_then_def upcast_def int64_to_float64_def round_half_even_def ulp53.simps trunc_def)

lemma to_coo_dimension_overflow:
  "to_coo \<lparr>index = [0::nat], columns = [''gene'', ''term_id'', ''score''],
           col_data = [[I 0], [I (2 ^ 63 - 1)], [I 1]]\<rparr> 0 = Inl OverflowError"
  "to_coo \<lparr>index = [0::nat], columns = [''gene'', ''term_id'', ''score''],
           col_data = [[I 0], [I 0], [I 1]]\<rparr> (2 ^ 63 - 1) = Inl OverflowError"
  by (simp_all add: to_coo_def to_numpy_def column_slice_def np_max_def sp_coo_matrix_def
      and_then_def upcast_def)


section \<open>Side information loader: implicit ones and \<open>__call__\<close>\<close>

lemma add_implicit_ones_fresh:
  assumes "name \<notin> set (columns (h r))"
  shows "add_implicit_ones h r name
           = (h(r := (h r)\<lparr>columns := columns (h r) @ [name],
                             col_data := col_data (h r) @ [np_ones (length (index (h r)))]\<rparr>),
              Inr r)"
  using assms by (simp add: add_implicit_ones_def setitem_def np_ones_def)

text \<open>
  C10, as amended. When the frame has no column labelled \<open>implicit_1s_name\<close>,
  \<open>add_implicit_ones\<close> returns the reference it was given, and the heap differs only at
  that reference: the frame there keeps its row labels and its columns and has one new
  last column, labelled \<open>implicit_1s_name\<close>, whose cells are all \<open>1\<close>.
\<close>

theorem add_implicit_ones_in_place:
  assumes "name \<notin> set (columns (h r))"
  shows "\<exists>h'. add_implicit_ones h r name = (h', Inr r)
           \<and> (\<forall>r'. r' \<noteq> r \<longrightarrow> h' r' = h r')
           \<and> index (h' r) = index (h r)
           \<and> columns (h' r) = columns (h r) @ [name]
           \<and> col_data (h' r) = col_data (h r) @ [replicate (length (index (h r))) (F 1)]"
  using add_implicit_ones_fresh [of name h r] assms by (simp add: np_ones_def)

theorem add_implicit_ones_in_place_witness:
  "\<exists>h'. add_implicit_ones
            (\<lambda>a. \<lparr>index = [0, 1], columns = [''gene'', ''term_id''],
                   col_data = [[I 3, I 4], [I 5, I 6]]\<rparr>)
            7 implicit_1s_name_default = (h', Inr 7)
        \<and> columns (h' 7) = [''gene'', ''term_id'', ''implicit 1s'']
        \<and> col_data (h' 7) = [[I 3, I 4], [I 5, I 6], [F 1, F 1]]"
  using add_implicit_ones_in_place
    [of implicit_1s_name_default
        "\<lambda>a. \<lparr>index = [0, 1], columns = [''gene'', ''term_id''],
               col_data = [[I 3, I 4], [I 5, I 6]]\<rparr>" 7]
  by (auto simp: implicit_1s_name_default_def numeral_2_eq_2)

text \<open>
  C10 as stated fails for a frame that already has a column with the given label: the
  assignment replaces the cells of that column (here \<open>7\<close> becomes \<open>1\<close>) and appends
  nothing, so the frame still has its two columns.
\<close>

theorem add_implicit_ones_existing_column_counterexample:
  "columns (fst (add_implicit_ones
      (\<lambda>a. \<lparr>index = [0], columns = [''gene'', ''implicit 1s''], col_data = [[I 3], [I 7]]\<rparr>)
      0 implicit_1s_name_default) 0) = [''gene'', ''implicit 1s'']
   \<and> col_data (fst (add_implicit_ones
      (\<lambda>a. \<lparr>index = [0], columns = [''gene'', ''implicit 1s''], col_data = [[I 3], [I 7]]\<rparr>)
      0 implicit_1s_name_default) 0) = [[I 3], [F 1]]"
  by (simp add: add_implicit_ones_def setitem_def np_ones_def implicit_1s_name_default_def)

lemma to_csr_convertible:
  assumes "convertible max_alloc rows df" and "length (columns df) = 3"
  shows "\<exists>c. and_then (to_coo df rows) (tocsr max_alloc) = Inr c
           \<and> fst (csr_shape c) = rows + 1 \<and> snd (csr_shape c) \<le> 2 ^ 53 + 1"
proof -
  let ?c1 = "col_data df ! 1"
  have wf: "wf_frame df" and ne: "index df \<noteq> []"
    and lim: "rows + 2 < 2 ^ 60" "rows + 2 \<le> max_alloc"
    and c_ok: "\<And>c. c \<in> set ?c1 \<Longrightarrow> small c \<and> 0 \<le> py_int c"
    using assms(1) by (auto simp: convertible_def wf_num_frame_def list_all_iff)
  have rows: "rows + 1 < 2 ^ 63" using lim(1) by simp
  have coo: "to_coo df rows
      = Inr \<lparr>coo_shape = (rows + 1, Max (py_int ` set ?c1) + 1),
             coo_row = map py_int (col_data df ! 0),
             coo_col = map py_int ?c1,
             coo_data = map (upcast df) (col_data df ! 2)\<rparr>"
    by (rule to_coo_ok [OF wf _ ne rows])
      (use assms in \<open>auto simp: convertible_def list_all_iff\<close>)
  have n: "length (col_data df) = length (columns df)" using wf by (simp add: wf_frame_def)
  have "\<forall>k < length (columns df). length (col_data df ! k) = length (index df)"
    using wf n by (simp add: wf_frame_def list_all_length)
  with assms(2) have "length ?c1 = length (index df)" by simp
  with ne have c1: "?c1 \<noteq> []" by auto
  have width: "Max (py_int ` set ?c1) \<le> 2 ^ 53"
    using c1 c_ok small_py_int_le by (subst Max_le_iff) auto
  show ?thesis
    using lim width by (simp add: coo and_then_def tocsr_def Let_def)
qed

lemma convertible_with_ones:
  assumes "convertible max_alloc rows df" and "length (columns df) = 2"
  shows "convertible max_alloc rows (with_ones df)" and "length (columns (with_ones df)) = 3"
proof -
  have n: "length (col_data df) = 2"
    using assms by (simp add: convertible_def wf_num_frame_def wf_frame_def)
  then have "(col_data df @ [np_ones (length (index df))]) ! 0 = col_data df ! 0"
    "(col_data df @ [np_ones (length (index df))]) ! 1 = col_data df ! 1"
    by (simp_all add: nth_append)
  then show "convertible max_alloc rows (with_ones df)"
    using assms n
    by (simp add: convertible_def wf_num_frame_def wf_frame_def with_ones_def np_ones_def
        list_all_iff)
  show "length (columns (with_ones df)) = 3"
    using assms(2) by (simp add: with_ones_def)
qed

lemma add_implicit_ones_with_ones:
  assumes "convertible max_alloc rows (h r)" and "length (columns (h r)) = 2"
  shows "add_implicit_ones h r implicit_1s_name_default = (h(r := with_ones (h r)), Inr r)"
  using add_implicit_ones_fresh [of implicit_1s_name_default h r] assms
  by (simp add: convertible_def with_ones_def)

lemma call_loop_char:
  assumes "\<forall>r \<in> set dfs. length (columns (h r)) = 2 \<or> length (columns (h r)) = 3
             \<longrightarrow> convertible max_alloc rows (h r)"
  shows "((\<exists>r \<in> set dfs. length (columns (h r)) \<noteq> 2 \<and> length (columns (h r)) \<noteq> 3)
            \<longrightarrow> (\<exists>h'. call_loop max_alloc h dfs rows acc = (h', Inl ValueError)))
       \<and> (\<not> (\<exists>r \<in> set dfs. length (columns (h r)) \<noteq> 2 \<and> length (columns (h r)) \<noteq> 3)
            \<longrightarrow> (\<exists>ms. call_loop max_alloc h dfs rows acc
                      = ((\<lambda>r. if r \<in> set dfs \<and> length (columns (h r)) = 2
                               then with_ones (h r) else h r),
                         Inr (acc @ ms))
                    \<and> length ms = length dfs
                    \<and> (\<forall>b \<in> set ms. fst (csr_shape b) = rows + 1
                                     \<and> snd (csr_shape b) \<le> 2 ^ 53 + 1)))"
  using assms
proof (induction dfs arbitrary: h acc)
  case Nil
  then show ?case by simp
next
  case (Cons r rest)
  let ?bad = "\<lambda>g r'. length (columns (g r')) \<noteq> 2 \<and> length (columns (g r')) \<noteq> 3"
  let ?final = "\<lambda>g ds r'. if r' \<in> set ds \<and> length (columns (g r')) = 2
                          then with_ones (g r') else g r'"
  let ?fits = "\<lambda>b. fst (csr_shape b) = rows + 1 \<and> snd (csr_shape b) \<le> 2 ^ 53 + 1"
  consider (two) "length (columns (h r)) = 2" | (three) "length (columns (h r)) = 3"
    | (other) "?bad h r" by blast
  then show ?case
  proof cases
    case other
    then show ?thesis by simp
  next
    case three
    then have conv: "convertible max_alloc rows (h r)" using Cons.prems by simp
    from to_csr_convertible [OF conv three] obtain c where
      c: "and_then (to_coo (h r) rows) (tocsr max_alloc) = Inr c" "?fits c" by blast
    have step: "call_loop max_alloc h (r # rest) rows acc
                  = call_loop max_alloc h rest rows (acc @ [c])"
      using three c(1) by simp
    have prem: "\<forall>r' \<in> set rest. length (columns (h r')) = 2 \<or> length (columns (h r')) = 3
                 \<longrightarrow> convertible max_alloc rows (h r')"
      using Cons.prems by simp
    note IH = Cons.IH [OF prem, of "acc @ [c]"]
    have bad_eq: "(\<exists>r' \<in> set rest. ?bad h r') \<longleftrightarrow> (\<exists>r' \<in> set (r # rest). ?bad h r')"
      using three by simp
    have A: "\<exists>h'. call_loop max_alloc h (r # rest) rows acc = (h', Inl ValueError)"
      if "\<exists>r' \<in> set (r # rest). ?bad h r'"
    proof -
      from that bad_eq have "\<exists>r' \<in> set rest. ?bad h r'" by blast
      with IH have "\<exists>h'. call_loop max_alloc h rest rows (acc @ [c]) = (h', Inl ValueError)"
        by blast
      with step show ?thesis by simp
    qed
    have B: "\<exists>ms. call_loop max_alloc h (r # rest) rows acc
                 = (?final h (r # rest), Inr (acc @ ms))
               \<and> length ms = length (r # rest) \<and> (\<forall>b \<in> set ms. ?fits b)"
      if "\<not> (\<exists>r' \<in> set (r # rest). ?bad h r')"
    proof -
      from that bad_eq have "\<not> (\<exists>r' \<in> set rest. ?bad h r')" by blast
      with IH obtain ms where ms:
        "call_loop max_alloc h rest rows (acc @ [c])
           = (?final h rest, Inr ((acc @ [c]) @ ms))"
        "length ms = length rest" "\<forall>b \<in> set ms. ?fits b"
        by blast
      have heap: "?final h rest = ?final h (r # rest)"
      proof (rule ext)
        fix r'
        show "?final h rest r' = ?final h (r # rest) r'"
          using three by (cases "r' = r") auto
      qed
      have "call_loop max_alloc h (r # rest) rows acc
          = (?final h (r # rest), Inr (acc @ (c # ms)))"
        using step ms(1) heap by simp
      moreover have "length (c # ms) = length (r # rest)" using ms(2) by simp
      moreover have "\<forall>b \<in> set (c # ms). ?fits b"
        using ms(3) c(2) by simp
      ultimately show ?thesis by blast
    qed
    from A B show ?thesis by blast
  next
    case two
    then have conv: "convertible max_alloc rows (h r)" using Cons.prems by simp
    define h1 where "h1 = h(r := with_ones (h r))"
    have add: "add_implicit_ones h r implicit_1s_name_default = (h1, Inr r)"
      unfolding h1_def by (rule add_implicit_ones_with_ones [of max_alloc rows h r, OF conv two])
    have h1r: "h1 r = with_ones (h r)" and h1o: "\<And>r'. r' \<noteq> r \<Longrightarrow> h1 r' = h r'"
      by (simp_all add: h1_def)
    have conv1: "convertible max_alloc rows (h1 r)" and three1: "length (columns (h1 r)) = 3"
      using convertible_with_ones [OF conv two] h1r by simp_all
    from to_csr_convertible [OF conv1 three1] obtain c where
      c: "and_then (to_coo (h1 r) rows) (tocsr max_alloc) = Inr c" "?fits c" by blast
    have step: "call_loop max_alloc h (r # rest) rows acc
                  = call_loop max_alloc h1 rest rows (acc @ [c])"
      using two add c(1) by simp
    have prem: "\<forall>r' \<in> set rest. length (columns (h1 r')) = 2 \<or> length (columns (h1 r')) = 3
                 \<longrightarrow> convertible max_alloc rows (h1 r')"
    proof
      fix r' assume r': "r' \<in> set rest"
      show "length (columns (h1 r')) = 2 \<or> length (columns (h1 r')) = 3
              \<longrightarrow> convertible max_alloc rows (h1 r')"
      proof (cases "r' = r")
        case True
        with conv1 show ?thesis by simp
      next
        case False
        with h1o [of r'] Cons.prems r' show ?thesis by simp
      qed
    qed
    note IH = Cons.IH [OF prem, of "acc @ [c]"]
    have bad_eq: "(\<exists>r' \<in> set rest. ?bad h1 r') \<longleftrightarrow> (\<exists>r' \<in> set (r # rest). ?bad h r')"
    proof -
      have "?bad h1 r' \<longleftrightarrow> ?bad h r'" for r'
        using two three1 h1o [of r'] by (cases "r' = r") auto
      moreover have "\<not> ?bad h r" using two by simp
      ultimately show ?thesis by auto
    qed
    have A: "\<exists>h'. call_loop max_alloc h (r # rest) rows acc = (h', Inl ValueError)"
      if "\<exists>r' \<in> set (r # rest). ?bad h r'"
    proof -
      from that bad_eq have "\<exists>r' \<in> set rest. ?bad h1 r'" by blast
      with IH have "\<exists>h'. call_loop max_alloc h1 rest rows (acc @ [c]) = (h', Inl ValueError)"
        by blast
      with step show ?thesis by simp
    qed
    have B: "\<exists>ms. call_loop max_alloc h (r # rest) rows acc
                 = (?final h (r # rest), Inr (acc @ ms))
               \<and> length ms = length (r # rest) \<and> (\<forall>b \<in> set ms. ?fits b)"
      if "\<not> (\<exists>r' \<in> set (r # rest). ?bad h r')"
    proof -
      from that bad_eq have "\<not> (\<exists>r' \<in> set rest. ?bad h1 r')" by blast
      with IH obtain ms where ms:
        "call_loop max_alloc h1 rest rows (acc @ [c])
           = (?final h1 rest, Inr ((acc @ [c]) @ ms))"
        "length ms = length rest" "\<forall>b \<in> set ms. ?fits b"
        by blast
      have heap: "?final h1 rest = ?final h (r # rest)"
      proof (rule ext)
        fix r'
        show "?final h1 rest r' = ?final h (r # rest) r'"
          using two three1 h1r h1o [of r'] by (cases "r' = r") auto
      qed
      have "call_loop max_alloc h (r # rest) rows acc
          = (?final h (r # rest), Inr (acc @ (c # ms)))"
        using step ms(1) heap by simp
      moreover have "length (c # ms) = length (r # rest)" using ms(2) by simp
      moreover have "\<forall>b \<in> set (c # ms). ?fits b"
        using ms(3) c(2) by simp
      ultimately show ?thesis by blast
    qed
    from A B show ?thesis by blast
  qed
qed

lemma sum_list_bounded:
  fixes f :: "'a \<Rightarrow> int"
  assumes "\<forall>x \<in> set xs. f x \<le> w"
  shows "sum_list (map f xs) \<le> int (length xs) * w"
  using assms by (induction xs) (auto simp: algebra_simps)

lemma sp_hstack_not_ValueError:
  assumes "\<forall>b \<in> set ms. fst (csr_shape b) = k"
  shows "sp_hstack ms \<noteq> Inl ValueError"
proof (cases ms)
  case Nil
  then show ?thesis by (simp add: sp_hstack_def)
next
  case (Cons b bs)
  with assms have "\<not> list_ex (\<lambda>b'. fst (csr_shape b') \<noteq> fst (csr_shape b)) bs"
    by (simp add: list_ex_iff)
  then show ?thesis by (simp add: sp_hstack_def Cons Let_def)
qed

lemma sp_hstack_ok:
  assumes "ms \<noteq> []" and "\<forall>b \<in> set ms. fst (csr_shape b) = k \<and> snd (csr_shape b) \<le> w"
    and "k < 2 ^ 63" and "int (length ms) * w < 2 ^ 63"
  shows "\<exists>M. sp_hstack ms = Inr M"
proof -
  from assms(1) obtain b bs where ms: "ms = b # bs" by (cases ms) auto
  with assms(2) have same: "\<not> list_ex (\<lambda>b'. fst (csr_shape b') \<noteq> fst (csr_shape b)) bs"
    by (simp add: list_ex_iff)
  have "sum_list (map (\<lambda>b'. snd (csr_shape b')) ms) \<le> int (length ms) * w"
    using assms(2) by (intro sum_list_bounded) simp
  with assms(4) have N: "sum_list (map (\<lambda>b'. snd (csr_shape b')) ms) < 2 ^ 63" by linarith
  have k: "fst (csr_shape b) < 2 ^ 63" using assms(2,3) ms by simp
  from N k have "\<not> 2 ^ 63 \<le> max (fst (csr_shape b)) (sum_list (map (\<lambda>b'. snd (csr_shape b')) ms))"
    by simp
  with same show ?thesis unfolding sp_hstack_def ms [symmetric]
    by (simp add: ms Let_def)
qed

text \<open>
  C5, as amended. For every list of references, the empty one included, in which
  every frame of two or three columns is convertible, \<open>__call__\<close> raises \<open>ValueError\<close>
  if and only if some frame has a number of columns that is neither \<open>2\<close> nor \<open>3\<close>. When
  moreover the list is not empty, has no such frame, and is short enough for the
  matrices side by side to have fewer than \<open>2^63\<close> columns, the call returns a matrix,
  and every frame that had two columns now has a third one, labelled \<open>implicit 1s\<close>,
  with \<open>1\<close> in every row.
\<close>

theorem SideInformationLoader_call_ValueError_iff:
  assumes "\<forall>r \<in> set dfs. length (columns (h r)) = 2 \<or> length (columns (h r)) = 3
           \<longrightarrow> convertible max_alloc rows (h r)"
  shows "(snd (SideInformationLoader_call max_alloc h dfs rows) = Inl ValueError
            \<longleftrightarrow> (\<exists>r \<in> set dfs. length (columns (h r)) \<noteq> 2 \<and> length (columns (h r)) \<noteq> 3))
       \<and> (dfs \<noteq> [] \<and> int (length dfs) * (2 ^ 53 + 1) < 2 ^ 63
            \<and> (\<forall>r \<in> set dfs. length (columns (h r)) = 2 \<or> length (columns (h r)) = 3)
            \<longrightarrow> (\<exists>h' M. SideInformationLoader_call max_alloc h dfs rows = (h', Inr M)
                  \<and> (\<forall>r \<in> set dfs. length (columns (h r)) = 2
                        \<longrightarrow> index (h' r) = index (h r)
                          \<and> columns (h' r) = columns (h r) @ [implicit_1s_name_default]
                          \<and> col_data (h' r)
                              = col_data (h r) @ [replicate (length (index (h r))) (F 1)])))"
proof (cases "\<exists>r \<in> set dfs. length (columns (h r)) \<noteq> 2 \<and> length (columns (h r)) \<noteq> 3")
  case True
  with call_loop_char [OF assms, of "[]"] obtain h' where
    "call_loop max_alloc h dfs rows [] = (h', Inl ValueError)" by blast
  then have "snd (SideInformationLoader_call max_alloc h dfs rows) = Inl ValueError"
    by (simp add: SideInformationLoader_call_def)
  with True show ?thesis by blast
next
  case False
  let ?h' = "\<lambda>r. if r \<in> set dfs \<and> length (columns (h r)) = 2 then with_ones (h r) else h r"
  from False call_loop_char [OF assms, of "[]"] obtain ms where ms:
    "call_loop max_alloc h dfs rows [] = (?h', Inr ([] @ ms))"
    "length ms = length dfs"
    "\<forall>b \<in> set ms. fst (csr_shape b) = rows + 1 \<and> snd (csr_shape b) \<le> 2 ^ 53 + 1"
    by blast
  have "sp_hstack ms \<noteq> Inl ValueError"
    by (rule sp_hstack_not_ValueError [of ms "rows + 1"]) (use ms(3) in simp)
  with ms(1) have no_error:
    "snd (SideInformationLoader_call max_alloc h dfs rows) \<noteq> Inl ValueError"
    by (simp add: SideInformationLoader_call_def)
  have returned: "\<exists>h' M. SideInformationLoader_call max_alloc h dfs rows = (h', Inr M)
      \<and> (\<forall>r \<in> set dfs. length (columns (h r)) = 2
            \<longrightarrow> index (h' r) = index (h r)
              \<and> columns (h' r) = columns (h r) @ [implicit_1s_name_default]
              \<and> col_data (h' r) = col_data (h r) @ [replicate (length (index (h r))) (F 1)])"
    if ne: "dfs \<noteq> []" and width: "int (length dfs) * (2 ^ 53 + 1) < 2 ^ 63"
  proof -
    from ne ms(2) have ms_ne: "ms \<noteq> []" by auto
    from ne obtain r0 where r0: "r0 \<in> set dfs" by (cases dfs) auto
    with False have "length (columns (h r0)) = 2 \<or> length (columns (h r0)) = 3" by blast
    with assms r0 have "convertible max_alloc rows (h r0)" by blast
    then have rows: "rows + 1 < 2 ^ 63" by (simp add: convertible_def)
    from width ms(2) have w: "int (length ms) * (2 ^ 53 + 1) < 2 ^ 63" by simp
    from sp_hstack_ok [OF ms_ne ms(3) rows w] obtain M where M: "sp_hstack ms = Inr M"
      by blast
    have res: "SideInformationLoader_call max_alloc h dfs rows = (?h', Inr M)"
      using ms(1) M by (simp add: SideInformationLoader_call_def)
    have "index (?h' r) = index (h r)
        \<and> columns (?h' r) = columns (h r) @ [implicit_1s_name_default]
        \<and> col_data (?h' r) = col_data (h r) @ [replicate (length (index (h r))) (F 1)]"
      if "r \<in> set dfs" "length (columns (h r)) = 2" for r
      using that by (simp add: with_ones_def np_ones_def)
    with res show ?thesis by blast
  qed
  from no_error returned False show ?thesis by blast
qed

theorem SideInformationLoader_call_ValueError_iff_witness:
  "\<exists>h' M. SideInformationLoader_call 1000
       ((\<lambda>a. \<lparr>index = [0, 1], columns = [''gene'', ''term_id''],
               col_data = [[I 0, I 1], [I 1, I 0]]\<rparr>)
          (1 := \<lparr>index = [0], columns = [''gene'', ''term_id'', ''score''],
                  col_data = [[I 1], [I 2], [F (1 / 2)]]\<rparr>))
       [0, 1] 1 = (h', Inr M)
     \<and> col_data (h' 0) = [[I 0, I 1], [I 1, I 0], [F 1, F 1]]"
proof -
  let ?h = "(\<lambda>a. \<lparr>index = [0, 1], columns = [''gene'', ''term_id''],
                  col_data = [[I 0, I 1], [I 1, I 0]]\<rparr>)
          (1 := \<lparr>index = [0::nat], columns = [''gene'', ''term_id'', ''score''],
                  col_data = [[I 1], [I 2], [F (1 / 2)]]\<rparr>)"
  have conv: "\<forall>r \<in> set [0, 1 :: nat]. length (columns (?h r)) = 2 \<or> length (columns (?h r)) = 3
           \<longrightarrow> convertible 1000 1 (?h r)"
    by (simp add: convertible_def wf_num_frame_def wf_frame_def small_def
        implicit_1s_name_default_def)
  have allok: "[0, 1 :: nat] \<noteq> [] \<and> int (length [0, 1 :: nat]) * (2 ^ 53 + 1) < 2 ^ 63
      \<and> (\<forall>r \<in> set [0, 1 :: nat]. length (columns (?h r)) = 2 \<or> length (columns (?h r)) = 3)"
    by simp
  from SideInformationLoader_call_ValueError_iff [OF conv] allok
  obtain h' M where
    r: "SideInformationLoader_call 1000 ?h [0, 1] 1 = (h', Inr M)"
      "\<forall>r \<in> set [0, 1 :: nat]. length (columns (?h r)) = 2
            \<longrightarrow> index (h' r) = index (?h r)
              \<and> columns (h' r) = columns (?h r) @ [implicit_1s_name_default]
              \<and> col_data (h' r) = col_data (?h r) @ [replicate (length (index (?h r))) (F 1)]"
    by blast
  from r(2) have "col_data (h' 0) = [[I 0, I 1], [I 1, I 0], [F 1, F 1]]"
    by (simp add: numeral_2_eq_2)
  with r(1) show ?thesis by blast
qed

text \<open>
  C5 as stated fails for a frame of three columns and no rows: the maximum of its empty
  second column is a \<open>ValueError\<close>, although no frame of the list has a number of
  columns other than \<open>2\<close> or \<open>3\<close>.
\<close>

theorem SideInformationLoader_call_empty_frame_counterexample:
  "snd (SideInformationLoader_call 1000
         (\<lambda>a. \<lparr>index = [], columns = [''gene'', ''term_id'', ''score''],
                col_data = [[], [], []]\<rparr>) [0] 5) = Inl ValueError
   \<and> length (columns \<lparr>index = ([] :: nat list), columns = [''gene'', ''term_id'', ''score''],
                col_data = [[], [], [] :: num list]\<rparr>) = 3"
  by (simp add: SideInformationLoader_call_def to_coo_def to_numpy_def column_slice_def
      np_max_def and_then_def)

text \<open>
  The conversion to the compressed-row format meets the limits of the machine: for a
  frame of three columns, \<open>rows = 2^60\<close> is a \<open>ValueError\<close> of numpy, and a number of
  rows beyond what the machine can allocate is a \<open>MemoryError\<close>.
\<close>

lemma SideInformationLoader_call_limits:
  "snd (SideInformationLoader_call 1000
         (\<lambda>a. \<lparr>index = [0], columns = [''gene'', ''term_id'', ''score''],
                col_data = [[I 0], [I 0], [F 1]]\<rparr>) [0] (2 ^ 60)) = Inl ValueError"
  "snd (SideInformationLoader_call 1000
         (\<lambda>a. \<lparr>index = [0], columns = [''gene'', ''term_id'', ''score''],
                col_data = [[I 0], [I 0], [F 1]]\<rparr>) [0] 5000) = Inl MemoryError"
  by (simp_all add: SideInformationLoader_call_def to_coo_def to_numpy_def column_slice_def
      np_max_def and_then_def sp_coo_matrix_def tocsr_def upcast_def Let_def
      int64_to_float64_def round_half_even_def ulp53.simps trunc_def)


section \<open>BEDROC: the claim\<close>

lemma strict_sorted_nth_upper:
  fixes xs :: "nat list"
  assumes "sorted_wrt (<) xs" and "\<forall>x \<in> set xs. x < N"
  shows "i < length xs \<Longrightarrow> xs ! i + (length xs - i) \<le> N"
proof (induction "length xs - i" arbitrary: i)
  case 0
  then show ?case by simp
next
  case (Suc d)
  show ?case
  proof (cases "Suc i < length xs")
    case False
    with Suc.prems have "Suc i = length xs" by simp
    moreover have "xs ! i < N" using assms(2) Suc.prems by simp
    ultimately show ?thesis by simp
  next
    case True
    have "d = length xs - Suc i" using Suc.hyps(2) by simp
    from Suc.hyps(1) [OF this True] have "xs ! Suc i + (length xs - Suc i) \<le> N" .
    moreover have "xs ! i < xs ! Suc i"
      using sorted_wrt_nth_less [OF assms(1), of i "Suc i"] True by simp
    ultimately show ?thesis using True by simp
  qed
qed

lemma sum_list_antimono_bounds:
  fixes f :: "nat \<Rightarrow> real" and xs :: "nat list"
  assumes anti: "\<And>a b. a \<le> b \<Longrightarrow> f b \<le> f a"
    and sorted: "sorted_wrt (<) xs" and bound: "\<forall>x \<in> set xs. x < N"
  shows "sum_list (map f xs) \<le> (\<Sum>i<length xs. f i)"
    and "(\<Sum>i<length xs. f (N - length xs + i)) \<le> sum_list (map f xs)"
proof -
  have eq: "sum_list (map f xs) = (\<Sum>i<length xs. f (xs ! i))"
    by (simp add: sum_list_sum_nth atLeast0LessThan)
  have "(\<Sum>i<length xs. f (xs ! i)) \<le> (\<Sum>i<length xs. f i)"
  proof (rule sum_mono)
    fix i assume "i \<in> {..<length xs}"
    then have "i \<le> xs ! i" using sorted_wrt_less_idx [OF sorted] by simp
    then show "f (xs ! i) \<le> f i" by (rule anti)
  qed
  with eq show "sum_list (map f xs) \<le> (\<Sum>i<length xs. f i)" by simp
  have "(\<Sum>i<length xs. f (N - length xs + i)) \<le> (\<Sum>i<length xs. f (xs ! i))"
  proof (rule sum_mono)
    fix i assume "i \<in> {..<length xs}"
    then have i: "i < length xs" by simp
    from strict_sorted_nth_upper [OF sorted bound i]
    have "xs ! i \<le> N - length xs + i" using i by simp
    then show "f (N - length xs + i) \<le> f (xs ! i)" by (rule anti)
  qed
  with eq show "(\<Sum>i<length xs. f (N - length xs + i)) \<le> sum_list (map f xs)" by simp
qed

lemma count_positives_sorted_order:
  fixes y_true :: "int list"
  assumes "mset order = mset [0..<length y_true]"
  shows "length (filter (\<lambda>k. y_true ! (order ! k) = 1) [0..<length y_true])
           = length (filter (\<lambda>y. y = 1) y_true)"
proof -
  have len: "length order = length y_true"
    using assms by (metis size_mset length_upt diff_zero)
  have "filter (\<lambda>k. y_true ! (order ! k) = 1) [0..<length order]
          = filter ((\<lambda>y. y = 1) \<circ> (\<lambda>k. y_true ! (order ! k))) [0..<length order]"
    by (simp add: comp_def)
  then have "length (filter (\<lambda>k. y_true ! (order ! k) = 1) [0..<length order])
          = length (filter (\<lambda>y. y = 1) (map (\<lambda>k. y_true ! (order ! k)) [0..<length order]))"
    by (simp add: filter_map)
  also have "map (\<lambda>k. y_true ! (order ! k)) [0..<length order] = map ((!) y_true) order"
    by (rule nth_equalityI) simp_all
  also have "length (filter (\<lambda>y. y = 1) (map ((!) y_true) order))
          = size (filter_mset (\<lambda>y. y = 1) (mset (map ((!) y_true) order)))"
    by (metis mset_filter size_mset)
  also have "mset (map ((!) y_true) order) = mset (map ((!) y_true) [0..<length y_true])"
    using assms by (metis mset_map)
  also have "map ((!) y_true) [0..<length y_true] = y_true"
    by (rule map_nth)
  also have "size (filter_mset (\<lambda>y. y = 1) (mset y_true)) = length (filter (\<lambda>y. y = 1) y_true)"
    by (metis mset_filter size_mset)
  finally show ?thesis using len by simp
qed

lemma bedroc_closed_form:
  fixes q A B t s r_a :: real
  assumes q: "0 < q" "q < 1" and A: "0 < A" "A < 1" and B: "0 < B" "B < 1"
    and t: "0 < t" "t * t * (A * B) = 1" and ra: "0 < r_a"
  shows "s * (r_a * ((t - 1 / t) / 2) / ((t + 1 / t) / 2 - (t * A + 1 / (t * A)) / 2))
             / (r_a * (1 - A * B) / (1 / q - 1)) + 1 / (1 - 1 / B)
           = (s * (1 - q) / (q * (1 - A)) - B) / (1 - B)"
proof -
  have "A * B < 1 * 1"
    by (rule mult_strict_mono) (use A B in simp_all)
  then have AB: "A * B < 1" by simp
  have inv_t: "1 / t = t * A * B"
    using t by (simp add: field_simps)
  have inv_tA: "1 / (t * A) = t * B"
    using t A by (simp add: field_simps)
  have num: "(t - 1 / t) / 2 = t * (1 - A * B) / 2"
    unfolding inv_t by (simp add: field_simps)
  have den: "(t + 1 / t) / 2 - (t * A + 1 / (t * A)) / 2 = t * ((1 - A) * (1 - B)) / 2"
    unfolding inv_t inv_tA by (simp add: field_simps)
  have fac: "r_a * ((t - 1 / t) / 2) / ((t + 1 / t) / 2 - (t * A + 1 / (t * A)) / 2)
      = r_a * (1 - A * B) / ((1 - A) * (1 - B))"
    unfolding num den using t(1) by simp
  have rand: "r_a * (1 - A * B) / (1 / q - 1) = r_a * (1 - A * B) * q / (1 - q)"
    using q by (simp add: field_simps)
  have coef: "s * (r_a * (1 - A * B) / ((1 - A) * (1 - B))) / (r_a * (1 - A * B) * q / (1 - q))
      = s * (1 - q) / (q * (1 - A)) / (1 - B)"
  proof -
    define K where "K = r_a * (1 - A * B)"
    have K: "K \<noteq> 0" using ra AB by (simp add: K_def)
    have nz: "1 - A \<noteq> 0" "1 - B \<noteq> 0" "1 - q \<noteq> 0" "q \<noteq> 0"
      using q A B by simp_all
    have "s * (K / ((1 - A) * (1 - B))) / (K * q / (1 - q))
        = s * (1 - q) / (q * (1 - A)) / (1 - B)"
      using K nz by (simp add: divide_simps)
    then show ?thesis by (simp add: K_def)
  qed
  have cte: "1 / (1 - 1 / B) = - B / (1 - B)"
    using B by (simp add: field_simps)
  show ?thesis
    unfolding fac rand coef cte using B by (simp add: diff_divide_distrib)
qed

text \<open>
  C3. For a binary label vector with at least one positive and at least one negative
  label, a prediction vector of the same length and a positive \<open>alpha\<close>, the BEDROC
  score exists and lies between \<open>0\<close> and \<open>1\<close>. The score is the one of the model above,
  over the reals.
\<close>

theorem bedroc_score_bounded:
  assumes len: "length y_pred = length y_true"
    and binary: "\<forall>y \<in> set y_true. y = 0 \<or> y = 1"
    and pos: "1 \<in> set y_true" and neg: "0 \<in> set y_true"
    and alpha: "0 < alpha"
  shows "\<exists>s. bedroc_score y_true y_pred decreasing alpha = Some s \<and> 0 \<le> s \<and> s \<le> 1"
proof -
  define N where "N = length y_true"
  define n where "n = length (filter (\<lambda>y. y = 1) y_true)"
  define order where
    "order = sort_key (\<lambda>i. if decreasing then - (y_pred ! i) else y_pred ! i) [0..<length y_true]"
  define xs where "xs = filter (\<lambda>k. y_true ! (order ! k) = 1) [0..<length y_true]"
  define S where "S = (\<Sum>r\<leftarrow>map Suc xs. exp (- alpha * real r / real N))"
  define r_a where "r_a = real n / real N"
  define q where "q = exp (- (alpha / real N))"
  define A where "A = q ^ n"
  define B where "B = q ^ (N - n)"
  define t where "t = exp (alpha / 2)"
  \<comment> \<open>the counts\<close>
  have n_pos: "0 < n"
    using pos by (auto simp: n_def filter_empty_conv)
  have n_less: "n < N"
    unfolding n_def N_def by (rule length_filter_less [OF neg]) simp
  have N_pos: "0 < N" using n_less by simp
  have ra_pos: "0 < r_a" using n_pos N_pos by (simp add: r_a_def)
  \<comment> \<open>the ranks\<close>
  have "mset order = mset [0..<length y_true]"
    by (simp add: order_def)
  then have len_xs: "length xs = n"
    unfolding xs_def n_def by (rule count_positives_sorted_order)
  have sorted_xs: "sorted_wrt (<) xs"
    unfolding xs_def by (rule sorted_wrt_filter) (rule sorted_wrt_upt)
  have bound_xs: "\<forall>x \<in> set xs. x < N"
    by (simp add: xs_def N_def)
  \<comment> \<open>the value computed\<close>
  have val: "bedroc_score y_true y_pred decreasing alpha
      = Some (S * (r_a * sinh (alpha / 2) / (cosh (alpha / 2) - cosh (alpha / 2 - alpha * r_a)))
                / (r_a * (1 - exp (- alpha)) / (exp (alpha / real N) - 1))
              + 1 / (1 - exp (alpha * (1 - r_a))))"
    using len n_pos n_less alpha
    unfolding bedroc_score_def bedroc_ranks_def Let_def
      S_def xs_def order_def r_a_def n_def N_def
    by simp
  \<comment> \<open>everything as powers of \<open>q\<close>\<close>
  have q: "0 < q" "q < 1"
    using alpha N_pos by (simp_all add: q_def)
  have pow: "q ^ k = exp (- (alpha * real k / real N))" for k
  proof -
    have "q ^ k = exp (of_nat k * (- (alpha / real N)))"
      unfolding q_def by (rule exp_of_nat_mult [symmetric])
    then show ?thesis by (simp add: field_simps)
  qed
  have A: "0 < A" "A < 1"
    using q n_pos by (simp_all add: A_def power_Suc_less_one power_less_one_iff)
  have B: "0 < B" "B < 1"
    using q n_less by (simp_all add: B_def power_less_one_iff)
  have AB: "A * B = exp (- alpha)"
  proof -
    have "A * B = q ^ N"
      using n_less by (simp add: A_def B_def power_add [symmetric])
    also have "\<dots> = exp (- alpha)"
      using N_pos by (simp add: pow)
    finally show ?thesis .
  qed
  have t: "0 < t" "t * t * (A * B) = 1"
  proof -
    show "0 < t" by (simp add: t_def)
    have "t * t = exp alpha"
      by (simp add: t_def exp_add [symmetric])
    then show "t * t * (A * B) = 1"
      by (simp add: AB exp_minus)
  qed
  have e_x: "exp (alpha / real N) = 1 / q"
    by (simp add: q_def exp_minus field_simps)
  have e_A: "exp (- (alpha * r_a)) = A"
    by (simp add: A_def pow r_a_def)
  have e_B: "exp (alpha * (1 - r_a)) = 1 / B"
  proof -
    have "real (N - n) = real N - real n" using n_less by (simp add: of_nat_diff)
    then have "B = exp (- (alpha * (1 - r_a)))"
      using N_pos by (simp add: B_def pow r_a_def field_simps)
    then have "B = inverse (exp (alpha * (1 - r_a)))" by (simp only: exp_minus)
    then have "1 / B = exp (alpha * (1 - r_a))" by (simp only: inverse_eq_divide [symmetric] inverse_inverse_eq)
    then show ?thesis by simp
  qed
  have sinh_eq: "sinh (alpha / 2) = (t - 1 / t) / 2"
    by (simp add: sinh_field_def t_def exp_minus field_simps)
  have cosh_eq: "cosh (alpha / 2) = (t + 1 / t) / 2"
    by (simp add: cosh_field_def t_def exp_minus field_simps)
  have e_tA: "exp (alpha / 2 - alpha * r_a) = t * A"
  proof -
    have "exp (alpha / 2 - alpha * r_a) = exp (alpha / 2) * exp (- (alpha * r_a))"
      by (simp only: diff_conv_add_uminus exp_add)
    then show ?thesis by (simp only: t_def e_A)
  qed
  have cosh_eq2: "cosh (alpha / 2 - alpha * r_a) = (t * A + 1 / (t * A)) / 2"
    unfolding cosh_field_def e_tA exp_minus [of "alpha / 2 - alpha * r_a"]
    by (simp add: field_simps)
  \<comment> \<open>the sum of the weights lies between the sums of the last and of the first \<open>n\<close> ranks\<close>
  have S_eq: "S = sum_list (map (\<lambda>k. q ^ Suc k) xs)"
    unfolding S_def by (simp add: pow comp_def del: power_Suc of_nat_Suc)
  have anti: "q ^ Suc b \<le> q ^ Suc a" if "a \<le> b" for a b
    by (rule power_decreasing) (use that q in simp_all)
  have G: "(\<Sum>i<n. q ^ i) = (1 - A) / (1 - q)"
    using q by (simp add: sum_gp_strict A_def)
  have upper: "S \<le> q * ((1 - A) / (1 - q))"
  proof -
    have "S \<le> (\<Sum>i<length xs. q ^ Suc i)"
      unfolding S_eq by (rule sum_list_antimono_bounds(1) [OF anti sorted_xs bound_xs])
    also have "\<dots> = q * (\<Sum>i<n. q ^ i)"
      by (simp add: len_xs sum_distrib_left)
    finally show ?thesis by (simp add: G)
  qed
  have lower: "B * (q * ((1 - A) / (1 - q))) \<le> S"
  proof -
    have "(\<Sum>i<length xs. q ^ Suc (N - length xs + i)) \<le> S"
      unfolding S_eq by (rule sum_list_antimono_bounds(2) [OF anti sorted_xs bound_xs])
    moreover have "(\<Sum>i<length xs. q ^ Suc (N - length xs + i)) = B * (q * (\<Sum>i<n. q ^ i))"
      by (simp add: len_xs sum_distrib_left B_def power_add mult_ac)
    ultimately show ?thesis by (simp add: G)
  qed
  define w where "w = S * (1 - q) / (q * (1 - A))"
  have c_pos: "0 < (1 - q) / (q * (1 - A))"
    using q A by simp
  have w_upper: "w \<le> 1"
  proof -
    have "S * ((1 - q) / (q * (1 - A))) \<le> q * ((1 - A) / (1 - q)) * ((1 - q) / (q * (1 - A)))"
      by (rule mult_right_mono [OF upper]) (use c_pos in simp)
    also have "\<dots> = 1" using q A by simp
    finally show ?thesis by (simp add: w_def)
  qed
  have w_lower: "B \<le> w"
  proof -
    have "B * (q * ((1 - A) / (1 - q))) * ((1 - q) / (q * (1 - A)))
        \<le> S * ((1 - q) / (q * (1 - A)))"
      by (rule mult_right_mono [OF lower]) (use c_pos in simp)
    moreover have "B * (q * ((1 - A) / (1 - q))) * ((1 - q) / (q * (1 - A))) = B"
      using q A by simp
    ultimately show ?thesis by (simp add: w_def)
  qed
  \<comment> \<open>the closed form\<close>
  have "S * (r_a * sinh (alpha / 2) / (cosh (alpha / 2) - cosh (alpha / 2 - alpha * r_a)))
          / (r_a * (1 - exp (- alpha)) / (exp (alpha / real N) - 1))
        + 1 / (1 - exp (alpha * (1 - r_a)))
      = (w - B) / (1 - B)"
    unfolding sinh_eq cosh_eq cosh_eq2 AB [symmetric] e_x e_B w_def
    by (rule bedroc_closed_form [OF q A B t ra_pos])
  moreover have "0 \<le> (w - B) / (1 - B)" using w_lower B by simp
  moreover have "(w - B) / (1 - B) \<le> 1" using w_upper B by simp
  ultimately show ?thesis using val by simp
qed

theorem bedroc_score_bounded_witness:
  "\<exists>s. bedroc_score [1, 0, 0] [1 / 2, 9 / 10, 1 / 10] True 20 = Some s \<and> 0 \<le> s \<and> s \<le> 1"
  using bedroc_score_bounded [of "[1 / 2, 9 / 10, 1 / 10]" "[1, 0, 0]" 20 True]
  by simp

end
